theory Spec2Isabelle
  imports Main
begin


section \<open>Template strings\<close>

text \<open>
  The source renders numbers inside template literals (\<open>`${makeUpRuns}`\<close>,
  \<open>`${status.code}`\<close>, \<open>`${this.#port}`\<close>). Numbers are modelled on the integers, and
  rendered in decimal as JavaScript does for them.
\<close>

definition digit :: "nat \<Rightarrow> char" where
  "digit d = ''0123456789'' ! d"

function string_of_nat :: "nat \<Rightarrow> string" where
  "string_of_nat n = (if n < 10 then [digit n] else string_of_nat (n div 10) @ [digit (n mod 10)])"
  by pat_completeness auto
termination
  by (relation "measure (\<lambda>n. n)") auto

declare string_of_nat.simps [simp del]

definition string_of_int :: "int \<Rightarrow> string" where
  "string_of_int k = (if k < 0 then CHR ''-'' # string_of_nat (nat (- k)) else string_of_nat (nat k))"

section \<open>Regular expressions\<close>

text \<open>
  A regular-expression literal of the source is a value of \<open>regex\<close>. \<open>lang\<close> is what
  it denotes; \<open>regex_test\<close> is the executable matcher standing for
  \<open>RegExp.prototype.test\<close> on an expression anchored with \<open>^\<close> and \<open>$\<close> (no flags): the
  whole input has to be in the language.
\<close>

datatype regex =
    Never
  | Eps
  | Range char char
  | Alt regex regex
  | Seq regex regex
  | Star regex

definition in_range :: "char \<Rightarrow> char \<Rightarrow> char \<Rightarrow> bool" where
  "in_range lo hi c = ((of_char lo :: nat) \<le> of_char c \<and> (of_char c :: nat) \<le> of_char hi)"

inductive_set star :: "string set \<Rightarrow> string set" for L :: "string set" where
  star_empty: "[] \<in> star L"
| star_more: "u \<in> L \<Longrightarrow> v \<in> star L \<Longrightarrow> u @ v \<in> star L"

fun lang :: "regex \<Rightarrow> string set" where
  "lang Never = {}"
| "lang Eps = {[]}"
| "lang (Range lo hi) = {[c] | c. in_range lo hi c}"
| "lang (Alt r s) = lang r \<union> lang s"
| "lang (Seq r s) = {u @ v | u v. u \<in> lang r \<and> v \<in> lang s}"
| "lang (Star r) = star (lang r)"

fun nullable :: "regex \<Rightarrow> bool" where
  "nullable Never = False"
| "nullable Eps = True"
| "nullable (Range lo hi) = False"
| "nullable (Alt r s) = (nullable r \<or> nullable s)"
| "nullable (Seq r s) = (nullable r \<and> nullable s)"
| "nullable (Star r) = True"

fun deriv :: "char \<Rightarrow> regex \<Rightarrow> regex" where
  "deriv c Never = Never"
| "deriv c Eps = Never"
| "deriv c (Range lo hi) = (if in_range lo hi c then Eps else Never)"
| "deriv c (Alt r s) = Alt (deriv c r) (deriv c s)"
| "deriv c (Seq r s) =
     (if nullable r then Alt (Seq (deriv c r) s) (deriv c s) else Seq (deriv c r) s)"
| "deriv c (Star r) = Seq (deriv c r) (Star r)"

definition regex_test :: "regex \<Rightarrow> string \<Rightarrow> bool" where
  "regex_test r s = nullable (fold deriv s r)"

definition OneOrMore :: "regex \<Rightarrow> regex" where
  "OneOrMore r = Seq r (Star r)"

text \<open>The class \<open>[a-zA-Z0-9]\<close> and the literal \<open>-\<close>.\<close>

definition alnum :: regex where
  "alnum = Alt (Range CHR ''a'' CHR ''z'') (Alt (Range CHR ''A'' CHR ''Z'') (Range CHR ''0'' CHR ''9''))"

definition hyphen :: regex where
  "hyphen = Range CHR ''-'' CHR ''-''"

text \<open>\<open>/^[a-zA-Z0-9]+(-[a-zA-Z0-9]+)*$/\<close> of \<open>#validateName\<close>.\<close>

definition kebab_case :: regex where
  "kebab_case = Seq (OneOrMore alnum) (Star (Seq hyphen (OneOrMore alnum)))"

section \<open>The document store\<close>

text \<open>
  Both stores are AloeDB databases, an external library. A database is the list of its
  documents; the operations follow the library's contract: \<open>insertOne\<close> appends,
  \<open>findMany\<close> returns the documents matching the query, \<open>updateOne\<close> patches the first
  match, \<open>deleteMany\<close> removes the matches and returns them. A query object is the
  predicate it denotes (\<open>{}\<close> matches everything).
\<close>

definition insertOne :: "'d \<Rightarrow> 'd list \<Rightarrow> 'd list" where
  "insertOne d db = db @ [d]"

definition findMany :: "('d \<Rightarrow> bool) \<Rightarrow> 'd list \<Rightarrow> 'd list" where
  "findMany q db = filter q db"

fun updateOne :: "('d \<Rightarrow> bool) \<Rightarrow> ('d \<Rightarrow> 'd) \<Rightarrow> 'd list \<Rightarrow> 'd list" where
  "updateOne q f [] = []"
| "updateOne q f (d # db) = (if q d then f d # db else d # updateOne q f db)"

definition deleteMany :: "('d \<Rightarrow> bool) \<Rightarrow> 'd list \<Rightarrow> 'd list \<times> 'd list" where
  "deleteMany q db = (filter q db, filter (\<lambda>d. \<not> q d) db)"

section \<open>Mailbox\<close>

text \<open>
  \<open>msg_timestamp\<close> is the instant whose \<open>Date.toString()\<close> rendering the source stores.
  Every operation returns its result and the new contents of the database.
\<close>

record Message =
  source :: string
  msg_timestamp :: int
  message :: string

type_synonym Mailbox = "Message list"

definition getAllMessages :: "Mailbox \<Rightarrow> Message list" where
  "getAllMessages db = findMany (\<lambda>m. True) db"

definition getMessages :: "string \<Rightarrow> Mailbox \<Rightarrow> Message list" where
  "getMessages src db = findMany (\<lambda>m. source m = src) db"

definition addMessage :: "string \<Rightarrow> string \<Rightarrow> int \<Rightarrow> Mailbox \<Rightarrow> Message \<times> Mailbox" where
  "addMessage src text now db =
     (let m = \<lparr>source = src, msg_timestamp = now, message = text\<rparr> in (m, insertOne m db))"

definition clearAllMessages :: "Mailbox \<Rightarrow> Message list \<times> Mailbox" where
  "clearAllMessages db = deleteMany (\<lambda>m. True) db"

definition clearMessages :: "string \<Rightarrow> Mailbox \<Rightarrow> Message list \<times> Mailbox" where
  "clearMessages src db = deleteMany (\<lambda>m. source m = src) db"

section \<open>Cron schedules\<close>

text \<open>
  A \<open>Cron\<close> object of the cron-schedule library is used through \<open>getNextDate\<close> only: the
  first occurrence strictly after an instant (epoch milliseconds). The type holds exactly
  the functions with that contract. \<open>getNextDatesIterator(start)\<close> yields
  \<open>getNextDate start\<close>, then \<open>getNextDate\<close> of what it yielded last, and so on.
\<close>

typedef Cron = "{f :: int \<Rightarrow> int. \<forall>t. t < f t}"
  morphisms getNextDate Cron_of
  by (rule exI [of _ "\<lambda>t. t + 1"]) simp

setup_lifting type_definition_Cron

text \<open>The schedule \<open>* * * * *\<close>: the start of every minute.\<close>

lift_definition every_minute :: Cron is "\<lambda>t. (t div 60000 + 1) * 60000"
proof -
  fix t :: int
  have "t mod 60000 < 60000" by simp
  moreover have "t = (t div 60000) * 60000 + t mod 60000"
    by (simp only: div_mult_mod_eq)
  ultimately show "t < (t div 60000 + 1) * 60000"
    by (simp add: algebra_simps)
qed

text \<open>
  The loop of \<open>schedule\<close> that counts the missed runs:
  \<open>for (const nextRun of runs) { if (nextRun.getTime() > now) break; ++missedRuns; }\<close>
\<close>

function countMissed :: "Cron \<Rightarrow> int \<Rightarrow> int \<Rightarrow> nat \<Rightarrow> nat" where
  "countMissed c now t missedRuns =
     (if getNextDate c t > now then missedRuns
      else countMissed c now (getNextDate c t) (Suc missedRuns))"
  by pat_completeness auto
termination
proof (relation "measure (\<lambda>(c, now, t, m). nat (now - t))")
  show "wf (measure (\<lambda>(c, now, t, m). nat (now - t)))" by simp
next
  fix c :: Cron and now t :: int and missedRuns :: nat
  assume "\<not> now < getNextDate c t"
  moreover have "t < getNextDate c t" using getNextDate [of c] by simp
  ultimately show "((c, now, getNextDate c t, Suc missedRuns), (c, now, t, missedRuns))
      \<in> measure (\<lambda>(c, now, t, m). nat (now - t))" by simp
qed

declare countMissed.simps [simp del]

text \<open>
  The cron occurrences strictly after \<open>t\<close> and not after \<open>now\<close>, as the specification
  words them.
\<close>

definition missedOccurrences :: "Cron \<Rightarrow> int \<Rightarrow> int \<Rightarrow> int set" where
  "missedOccurrences c t now = {d. (\<exists>k. 0 < k \<and> d = (getNextDate c ^^ k) t) \<and> d \<le> now}"

section \<open>The supervisor: data\<close>

text \<open>\<open>throw new Error("Invalid job name")\<close>, \<open>throw new Error("A job with this name
  already exists")\<close>, a rejected cron expression, a file that cannot be read or parsed, and
  a document the schema rejects (the path of the offending value and the issue).\<close>

datatype zod_issue = invalid_type | unrecognized_keys "string list" | invalid_union

datatype error =
    InvalidName
  | DuplicateName
  | InvalidCron
  | ReadOrParseFailure string
  | ZodError "string list" zod_issue

record StartupOptions =
  keepAlive :: bool

datatype MakeUpMissedRuns = All | Number int

record ScheduleOptions =
  allowConcurrentRuns :: bool
  makeUpMissedRuns :: MakeUpMissedRuns

record RunStatusEntry =
  entry_id :: string
  entry_name :: string
  timestamp :: int
  statusCode :: "int option"

text \<open>
  Job objects are shared and mutated (\<open>job.process\<close>), so they live in a store and are
  referred to by address. \<open>abortSignal\<close> is the address of the \<open>AbortController\<close> whose
  signal the job holds; \<open>process\<close> is the pid of the running child.
\<close>

datatype JobType = Startup | Scheduled Cron nat

record Job =
  jobType :: JobType
  name :: string
  command :: string
  logFile :: string
  process :: "nat option"
  abortSignal :: nat

text \<open>A listener is an \<open>onAbort\<close> closure: the execution that registered it and the pid it
  signals.\<close>

record AbortSignal =
  aborted :: bool
  listeners :: "(nat \<times> nat) list"

text \<open>\<open>Deno.ProcessStatus\<close>: \<open>success\<close> holds exactly when the exit code is 0.\<close>

record ProcessStatus =
  success :: bool
  code :: int

record Child =
  cmd :: "string list"
  env :: "(string \<times> string) list option"
  sigterm :: bool
  exited :: "ProcessStatus option"

text \<open>A task of the cron scheduler: the schedule, and what the callback closure of
  \<open>schedule\<close> captured (\<open>job\<close>, \<open>name\<close>, \<open>options.allowConcurrentRuns\<close>).\<close>

record Task =
  task_schedule :: Cron
  task_job :: nat
  task_name :: string
  task_allowConcurrentRuns :: bool

text \<open>
  Asynchronous functions run until their next \<open>await\<close> and are resumed later; between the
  two, other code runs. An activation of \<open>#executeJob\<close> is an \<open>Execution\<close>: \<open>at\<close> names the
  \<open>await\<close> it is suspended at (\<open>Aborted\<close>: it returned at the entry check; \<open>Returned\<close>: it ran
  to the end). \<open>run_id\<close>, \<open>child\<close> and \<open>status\<close> are the locals \<open>id\<close>, \<open>process\<close> and \<open>status\<close>,
  meaningful once assigned.
\<close>

datatype pc =
    Aborted
  | AwaitStderr
  | AwaitInsert
  | AwaitEnsureDir
  | AwaitOpen
  | AwaitHeader
  | AwaitStatus
  | AwaitUpdate
  | AwaitFooter
  | Returned

record Execution =
  exec_job :: nat
  at :: pc
  startTime :: int
  run_id :: string
  child :: nat
  status :: ProcessStatus

text \<open>The loop of \<open>startup\<close>, suspended at \<open>await this.#executeJob(job)\<close> or at
  \<open>await sleep(5)\<close>, or left.\<close>

datatype LoopState = AwaitExecuteJob nat | AwaitSleep | LoopExited

record StartupLoop =
  loop_job :: nat
  loop_signal :: nat
  loop_keepAlive :: bool
  loop_at :: LoopState

text \<open>
  The rest of \<open>schedule\<close> after registration: suspended at \<open>await this.getLastRuns(name)\<close>,
  at \<open>await this.#executeJob(job)\<close> of catch-up iteration \<open>run\<close>, or returned.
  \<open>lastRunTime\<close> is what the query found; \<open>counted_at\<close> is the \<open>Date.now()\<close> of the count.
\<close>

datatype CatchUpState = AwaitGetLastRuns | AwaitCatchUp nat nat | ScheduleReturned

record CatchUp =
  catchup_job :: nat
  catchup_name :: string
  catchup_schedule :: Cron
  catchup_option :: MakeUpMissedRuns
  lastRunTime :: "int option"
  counted_at :: int
  missedRuns :: nat
  makeUpRuns :: int
  catchup_at :: CatchUpState

text \<open>
  What the supervisor does to the outside, in order. Each entry names who did it: a call
  of the public interface, an execution, a startup loop, a \<open>schedule\<close> call, a scheduler
  callback, or the HTTP handler. \<open>ExecuteJob i\<close> is a call of \<open>#executeJob\<close>, creating
  execution \<open>i\<close>. Dates inside texts are kept as instants.
\<close>

datatype origin = Api | Exec nat | Loop nat | Sched nat | Callback nat | Http

datatype event =
    CallReset
  | CallStartup string string StartupOptions
  | CallSchedule string string string ScheduleOptions
  | ReadTextFile string
  | ExecuteJob nat
  | Stderr string
  | StderrRunning int string string
  | InsertStatus string string int
  | EnsureDir string
  | OpenLog string
  | WriteHeader string int
  | Run nat "string list" "(string \<times> string) list option"
  | UpdateStatus string int
  | AddMessage string string
  | WriteFooter string int
  | CloseLog string
  | Kill nat

record ChronService =
  chronDir :: string
  logDir :: string
  port :: int
  statusDb :: "RunStatusEntry list"
  jobs :: "(string \<times> nat) list"
  abortController :: nat
  scheduler :: "(nat \<times> Task) list"
  nextTaskId :: nat
  mailbox :: Mailbox
  jobObjs :: "Job list"
  controllers :: "AbortSignal list"
  children :: "Child list"
  executions :: "Execution list"
  loops :: "StartupLoop list"
  catchups :: "CatchUp list"
  trace :: "(origin \<times> event) list"

definition join :: "string \<Rightarrow> string \<Rightarrow> string" where
  "join dir file = dir @ ''/'' @ file"

text \<open>\<open>new ChronService({ port, chronDir })\<close>.\<close>

definition new_ChronService :: "int \<Rightarrow> string \<Rightarrow> ChronService" where
  "new_ChronService p dir =
     \<lparr>chronDir = dir, logDir = join dir ''logs'', port = p, statusDb = [], jobs = [],
      abortController = 0, scheduler = [], nextTaskId = 0, mailbox = [], jobObjs = [],
      controllers = [\<lparr>aborted = False, listeners = []\<rparr>], children = [], executions = [],
      loops = [], catchups = [], trace = []\<rparr>"

definition emit :: "origin \<Rightarrow> event list \<Rightarrow> ChronService \<Rightarrow> ChronService" where
  "emit who es s = s\<lparr>trace := trace s @ map (Pair who) es\<rparr>"

definition events_of :: "origin \<Rightarrow> ChronService \<Rightarrow> event list" where
  "events_of who s = map snd (filter (\<lambda>(w, e). w = who) (trace s))"

section \<open>The supervisor: operations\<close>

definition validateName :: "ChronService \<Rightarrow> string \<Rightarrow> error + unit" where
  "validateName s nm =
     (if length nm = 0 \<or> \<not> regex_test kebab_case nm then Inl InvalidName
      else if map_of (jobs s) nm \<noteq> None then Inl DuplicateName
      else Inr ())"

definition getLastRuns :: "ChronService \<Rightarrow> string \<Rightarrow> RunStatusEntry list" where
  "getLastRuns s job = sort_key (\<lambda>r. - timestamp r) (findMany (\<lambda>r. entry_name r = job) (statusDb s))"

text \<open>\<open>process.kill("SIGTERM")\<close>.\<close>

definition kill :: "origin \<Rightarrow> nat \<Rightarrow> ChronService \<Rightarrow> ChronService" where
  "kill who pid s =
     emit who [Kill pid] (s\<lparr>children := (children s)[pid := (children s ! pid)\<lparr>sigterm := True\<rparr>]\<rparr>)"

text \<open>\<open>AbortController.abort()\<close>: the first call marks the signal and runs its listeners.\<close>

definition abort :: "nat \<Rightarrow> ChronService \<Rightarrow> ChronService" where
  "abort c s =
     (let sig = controllers s ! c in
      if aborted sig then s
      else fold (\<lambda>(i, pid). kill Api pid) (listeners sig)
             (s\<lparr>controllers := (controllers s)[c := sig\<lparr>aborted := True\<rparr>]\<rparr>))"

definition unregisterTask :: "nat \<Rightarrow> (nat \<times> Task) list \<Rightarrow> (nat \<times> Task) list" where
  "unregisterTask tid tasks = filter (\<lambda>(i, t). i \<noteq> tid) tasks"

definition reset :: "ChronService \<Rightarrow> ChronService" where
  "reset s0 =
     (let s1 = abort (abortController s0) (emit Api [CallReset] s0);
          s2 = s1\<lparr>scheduler :=
                 fold (\<lambda>(nm, job) tasks.
                         case jobType (jobObjs s1 ! job) of
                           Scheduled c tid \<Rightarrow> unregisterTask tid tasks
                         | Startup \<Rightarrow> tasks)
                      (jobs s1) (scheduler s1)\<rparr>;
          s3 = s2\<lparr>jobs := []\<rparr>
      in s3\<lparr>controllers := controllers s3 @ [\<lparr>aborted = False, listeners = []\<rparr>],
            abortController := length (controllers s3)\<rparr>)"

text \<open>
  \<open>#executeJob\<close>, from its entry to the first \<open>await\<close>: this part runs inside the caller.
  The new execution gets the next free index.
\<close>

definition executeJob :: "nat \<Rightarrow> int \<Rightarrow> ChronService \<Rightarrow> ChronService" where
  "executeJob job now s =
     (let i = length (executions s);
          j = jobObjs s ! job;
          x = \<lparr>exec_job = job, at = Aborted, startTime = now, run_id = [], child = 0,
               status = \<lparr>success = True, code = 0\<rparr>\<rparr>
      in if aborted (controllers s ! abortSignal j) then s\<lparr>executions := executions s @ [x]\<rparr>
         else emit (Exec i) [StderrRunning now (name j) (command j)]
                (s\<lparr>executions := executions s @ [x\<lparr>at := AwaitStderr\<rparr>]\<rparr>))"

definition goto :: "nat \<Rightarrow> (Execution \<Rightarrow> Execution) \<Rightarrow> ChronService \<Rightarrow> ChronService" where
  "goto i f s = s\<lparr>executions := (executions s)[i := f (executions s ! i)]\<rparr>"

definition mailbox_env :: "ChronService \<Rightarrow> Job \<Rightarrow> (string \<times> string) list option" where
  "mailbox_env s j =
     (if port s \<noteq> 0
      then Some [(''CHRON_MAILBOX_URL'',
                  ''http://0.0.0.0:'' @ string_of_int (port s) @ ''/mailbox/'' @ name j)]
      else None)"

text \<open>
  \<open>#executeJob\<close>, resumed: from the \<open>await\<close> it is suspended at to the next one. \<open>uuid\<close> is
  what \<open>crypto.randomUUID()\<close> returns and \<open>now\<close> the clock. An execution waiting for its
  child stays suspended until the child has exited.
\<close>

definition resumeJob :: "nat \<Rightarrow> string \<Rightarrow> int \<Rightarrow> ChronService \<Rightarrow> ChronService" where
  "resumeJob i uuid now s =
     (if i < length (executions s) then
        let x = executions s ! i; j = jobObjs s ! exec_job x in
        case at x of
          Aborted \<Rightarrow> s
        | AwaitStderr \<Rightarrow>
            goto i (\<lambda>x. x\<lparr>run_id := uuid, at := AwaitInsert\<rparr>)
              (emit (Exec i) [InsertStatus uuid (name j) (startTime x)]
                 (s\<lparr>statusDb := insertOne \<lparr>entry_id = uuid, entry_name = name j,
                        timestamp = startTime x, statusCode = None\<rparr> (statusDb s)\<rparr>))
        | AwaitInsert \<Rightarrow>
            goto i (\<lambda>x. x\<lparr>at := AwaitEnsureDir\<rparr>) (emit (Exec i) [EnsureDir (logDir s)] s)
        | AwaitEnsureDir \<Rightarrow>
            goto i (\<lambda>x. x\<lparr>at := AwaitOpen\<rparr>) (emit (Exec i) [OpenLog (logFile j)] s)
        | AwaitOpen \<Rightarrow>
            goto i (\<lambda>x. x\<lparr>at := AwaitHeader\<rparr>)
              (emit (Exec i) [WriteHeader (logFile j) (startTime x)] s)
        | AwaitHeader \<Rightarrow>
            (let pid = length (children s);
                 sig = controllers s ! abortSignal j;
                 p = \<lparr>cmd = [''sh'', ''-c'', command j], env = mailbox_env s j, sigterm = False,
                      exited = None\<rparr>
             in goto i (\<lambda>x. x\<lparr>child := pid, at := AwaitStatus\<rparr>)
                  (emit (Exec i) [Run pid (cmd p) (env p)]
                     (s\<lparr>children := children s @ [p],
                        jobObjs := (jobObjs s)[exec_job x := j\<lparr>process := Some pid\<rparr>],
                        controllers := (controllers s)[abortSignal j :=
                           sig\<lparr>listeners := listeners sig @ [(i, pid)]\<rparr>]\<rparr>)))
        | AwaitStatus \<Rightarrow>
            (case exited (children s ! child x) of
               None \<Rightarrow> s
             | Some st \<Rightarrow>
                 (let sig = controllers s ! abortSignal j in
                  goto i (\<lambda>x. x\<lparr>status := st, at := AwaitUpdate\<rparr>)
                    (emit (Exec i) [UpdateStatus (run_id x) (code st)]
                       (s\<lparr>controllers := (controllers s)[abortSignal j :=
                             sig\<lparr>listeners := filter (\<lambda>l. l \<noteq> (i, child x)) (listeners sig)\<rparr>],
                          jobObjs := (jobObjs s)[exec_job x := j\<lparr>process := None\<rparr>],
                          statusDb := updateOne (\<lambda>r. entry_id r = run_id x)
                             (\<lambda>r. r\<lparr>statusCode := Some (code st)\<rparr>) (statusDb s)\<rparr>))))
        | AwaitUpdate \<Rightarrow>
            (let text = name j @ '' failed with status code '' @ string_of_int (code (status x));
                 s1 = (if \<not> success (status x)
                       then emit (Exec i) [AddMessage ''@errors'' text]
                              (s\<lparr>mailbox := snd (addMessage ''@errors'' text now (mailbox s))\<rparr>)
                       else s)
             in goto i (\<lambda>x. x\<lparr>at := AwaitFooter\<rparr>)
                  (emit (Exec i) [WriteFooter (logFile j) (code (status x))] s1))
        | AwaitFooter \<Rightarrow>
            goto i (\<lambda>x. x\<lparr>at := Returned\<rparr>) (emit (Exec i) [CloseLog (logFile j)] s)
        | Returned \<Rightarrow> s
      else s)"

definition finished :: "ChronService \<Rightarrow> nat \<Rightarrow> bool" where
  "finished s i = (at (executions s ! i) = Returned \<or> at (executions s ! i) = Aborted)"

text \<open>The head of the loop of \<open>startup\<close>: the abort check, then the call of \<open>#executeJob\<close>.\<close>

definition startupLoop :: "nat \<Rightarrow> int \<Rightarrow> ChronService \<Rightarrow> ChronService" where
  "startupLoop a now s =
     (let l = loops s ! a; i = length (executions s) in
      if aborted (controllers s ! loop_signal l)
      then s\<lparr>loops := (loops s)[a := l\<lparr>loop_at := LoopExited\<rparr>]\<rparr>
      else executeJob (loop_job l) now
             (emit (Loop a) [ExecuteJob i]
                (s\<lparr>loops := (loops s)[a := l\<lparr>loop_at := AwaitExecuteJob i\<rparr>]\<rparr>)))"

definition startup ::
  "string \<Rightarrow> string \<Rightarrow> StartupOptions \<Rightarrow> int \<Rightarrow> ChronService \<Rightarrow> (error + unit) \<times> ChronService" where
  "startup nm command' options now s0 =
     (let s = emit Api [CallStartup nm command' options] s0 in
      case validateName s nm of
        Inl e \<Rightarrow> (Inl e, s)
      | Inr _ \<Rightarrow>
          (let job = \<lparr>jobType = Startup, name = nm, command = command',
                      logFile = join (logDir s) (nm @ ''.log''), process = None,
                      abortSignal = abortController s\<rparr>;
               l = \<lparr>loop_job = length (jobObjs s), loop_signal = abortController s,
                    loop_keepAlive = keepAlive options, loop_at = LoopExited\<rparr>
           in (Inr (), startupLoop (length (loops s)) now
                 (s\<lparr>jobObjs := jobObjs s @ [job],
                    jobs := jobs s @ [(nm, length (jobObjs s))],
                    loops := loops s @ [l]\<rparr>))))"

definition resumeStartup :: "nat \<Rightarrow> int \<Rightarrow> ChronService \<Rightarrow> ChronService" where
  "resumeStartup a now s =
     (if a < length (loops s) then
        let l = loops s ! a in
        case loop_at l of
          AwaitExecuteJob i \<Rightarrow>
            if finished s i
            then s\<lparr>loops := (loops s)[a := l\<lparr>loop_at :=
                       (if \<not> loop_keepAlive l then LoopExited else AwaitSleep)\<rparr>]\<rparr>
            else s
        | AwaitSleep \<Rightarrow> startupLoop a now s
        | LoopExited \<Rightarrow> s
      else s)"

text \<open>
  \<open>schedule\<close>, up to \<open>await this.getLastRuns(name)\<close>. \<open>parseCronExpression\<close> is the
  library's parser (\<open>None\<close>: it throws).
\<close>

definition schedule ::
  "(string \<Rightarrow> Cron option) \<Rightarrow> string \<Rightarrow> string \<Rightarrow> string \<Rightarrow> ScheduleOptions \<Rightarrow> ChronService
     \<Rightarrow> (error + unit) \<times> ChronService" where
  "schedule parseCronExpression nm sched command' options s0 =
     (let s = emit Api [CallSchedule nm sched command' options] s0 in
      case validateName s nm of
        Inl e \<Rightarrow> (Inl e, s)
      | Inr _ \<Rightarrow>
          (case parseCronExpression sched of
             None \<Rightarrow> (Inl InvalidCron, s)
           | Some cronSchedule \<Rightarrow>
               (let schedulerTaskId = nextTaskId s;
                    task = \<lparr>task_schedule = cronSchedule, task_job = length (jobObjs s),
                           task_name = nm,
                           task_allowConcurrentRuns = allowConcurrentRuns options\<rparr>;
                    job = \<lparr>jobType = Scheduled cronSchedule schedulerTaskId, name = nm,
                           command = command', logFile = join (logDir s) (nm @ ''.log''),
                           process = None, abortSignal = abortController s\<rparr>;
                    c = \<lparr>catchup_job = length (jobObjs s), catchup_name = nm,
                         catchup_schedule = cronSchedule,
                         catchup_option = makeUpMissedRuns options,
                         lastRunTime = (case getLastRuns s nm of [] \<Rightarrow> None
                                        | r # rs \<Rightarrow> Some (timestamp r)),
                         counted_at = 0, missedRuns = 0, makeUpRuns = 0,
                         catchup_at = AwaitGetLastRuns\<rparr>
                in (Inr (), s\<lparr>scheduler := scheduler s @ [(schedulerTaskId, task)],
                              nextTaskId := Suc schedulerTaskId,
                              jobObjs := jobObjs s @ [job],
                              jobs := jobs s @ [(nm, length (jobObjs s))],
                              catchups := catchups s @ [c]\<rparr>))))"

text \<open>One turn of \<open>for (let run = 0; run < makeUpRuns; ++run) await this.#executeJob(job)\<close>:
  the test, then the call.\<close>

definition catchUp :: "nat \<Rightarrow> nat \<Rightarrow> int \<Rightarrow> ChronService \<Rightarrow> ChronService" where
  "catchUp a run now s =
     (let c = catchups s ! a; i = length (executions s) in
      if int run < makeUpRuns c
      then executeJob (catchup_job c) now
             (emit (Sched a) [ExecuteJob i]
                (s\<lparr>catchups := (catchups s)[a := c\<lparr>catchup_at := AwaitCatchUp run i\<rparr>]\<rparr>))
      else s\<lparr>catchups := (catchups s)[a := c\<lparr>catchup_at := ScheduleReturned\<rparr>]\<rparr>)"

text \<open>
  \<open>schedule\<close> between \<open>await this.getLastRuns(name)\<close> and the catch-up loop: the count of
  the missed runs, the number of runs to make up, and the line on stderr.
\<close>

definition makeUp :: "MakeUpMissedRuns \<Rightarrow> nat \<Rightarrow> int" where
  "makeUp option missed = (case option of All \<Rightarrow> int missed | Number n \<Rightarrow> min (int missed) n)"

definition making_up :: "int \<Rightarrow> nat \<Rightarrow> string \<Rightarrow> string" where
  "making_up runs missed nm =
     ''Making up '' @ string_of_int runs @ '' of '' @ string_of_nat missed
       @ '' missed runs for '' @ nm @ [CHR 0x0A]"

definition countRuns :: "nat \<Rightarrow> int \<Rightarrow> ChronService \<Rightarrow> ChronService" where
  "countRuns a now s =
     (let c = catchups s ! a;
          missed = (case lastRunTime c of
                      None \<Rightarrow> 0
                    | Some t \<Rightarrow> countMissed (catchup_schedule c) now t 0);
          runs = makeUp (catchup_option c) missed;
          s1 = s\<lparr>catchups := (catchups s)[a := c\<lparr>counted_at := now, missedRuns := missed,
                                                  makeUpRuns := runs\<rparr>]\<rparr>
      in if runs > 0 then emit (Sched a) [Stderr (making_up runs missed (catchup_name c))] s1
         else s1)"

definition resumeSchedule :: "nat \<Rightarrow> int \<Rightarrow> ChronService \<Rightarrow> ChronService" where
  "resumeSchedule a now s =
     (if a < length (catchups s) then
        case catchup_at (catchups s ! a) of
          AwaitGetLastRuns \<Rightarrow> catchUp a 0 now (countRuns a now s)
        | AwaitCatchUp run i \<Rightarrow> if finished s i then catchUp a (Suc run) now s else s
        | ScheduleReturned \<Rightarrow> s
      else s)"

text \<open>The callback \<open>schedule\<close> registers with the scheduler, run at a firing of task \<open>tid\<close>.\<close>

definition skipping :: "string \<Rightarrow> string" where
  "skipping nm = ''Skipping '' @ nm @ '' because it is still running'' @ [CHR 0x0A]"

definition callback :: "nat \<Rightarrow> int \<Rightarrow> ChronService \<Rightarrow> ChronService" where
  "callback tid now s =
     (case map_of (scheduler s) tid of
        None \<Rightarrow> s
      | Some t \<Rightarrow>
          if process (jobObjs s ! task_job t) \<noteq> None \<and> \<not> task_allowConcurrentRuns t
          then emit (Callback tid) [Stderr (skipping (task_name t))] s
          else executeJob (task_job t) now
                 (emit (Callback tid) [ExecuteJob (length (executions s))] s))"

text \<open>A child process ends with an exit code.\<close>

definition childExit :: "nat \<Rightarrow> int \<Rightarrow> ChronService \<Rightarrow> ChronService" where
  "childExit pid c s =
     (if pid < length (children s) \<and> exited (children s ! pid) = None
      then s\<lparr>children := (children s)[pid := (children s ! pid)\<lparr>exited :=
                Some \<lparr>success = (c = 0), code = c\<rparr>\<rparr>]\<rparr>
      else s)"

section \<open>The HTTP control plane\<close>

text \<open>
  A request is its method, the path of its URL and its body. A response is its status and
  body. \<open>JDate\<close> is the ISO-8601 text of an instant; a field whose value is \<open>undefined\<close> is
  left out of an object, as \<open>Response.json\<close> does.
\<close>

datatype json =
    JNull
  | JBool bool
  | JNumber int
  | JString string
  | JDate int
  | JArray "json list"
  | JObject "(string \<times> json) list"

datatype Body = Text string | Json json | File string

record Response =
  res_status :: nat
  res_body :: Body

record Request =
  http_method :: string
  pathname :: string
  req_text :: string

text \<open>What a rejected filesystem call throws: \<open>Deno.errors.NotFound\<close>, another \<open>Error\<close>
  (with its \<open>toString()\<close>), or a value that is no \<open>Error\<close>.\<close>

datatype Thrown = NotFound | OtherError string | NotAnError

definition handleFsError :: "Thrown \<Rightarrow> Response" where
  "handleFsError err =
     (case err of
        NotFound \<Rightarrow> \<lparr>res_status = 404, res_body = Text ''Not Found''\<rparr>
      | OtherError str \<Rightarrow> \<lparr>res_status = 500, res_body = Text str\<rparr>
      | NotAnError \<Rightarrow> \<lparr>res_status = 500, res_body = Text ''Unknown error''\<rparr>)"

text \<open>
  \<open>URLPattern\<close> is part of the platform. A pattern such as \<open>/job/:job/:command\<close> matches a
  path that consists of exactly these segments, each named group being one non-empty
  segment without \<open>/\<close>.
\<close>

fun splitOn :: "char \<Rightarrow> string \<Rightarrow> string list" where
  "splitOn c [] = [[]]"
| "splitOn c (x # xs) =
     (if x = c then [] # splitOn c xs
      else (case splitOn c xs of w # ws \<Rightarrow> (x # w) # ws | [] \<Rightarrow> [[x]]))"

fun jobGroups :: "string list \<Rightarrow> (string \<times> string) option" where
  "jobGroups [e, j, job, command'] =
     (if e = [] \<and> j = ''job'' \<and> job \<noteq> [] \<and> command' \<noteq> [] then Some (job, command') else None)"
| "jobGroups segs = None"

fun mailboxGroups :: "string list \<Rightarrow> string option" where
  "mailboxGroups [e, m, command'] =
     (if e = [] \<and> m = ''mailbox'' \<and> command' \<noteq> [] then Some command' else None)"
| "mailboxGroups segs = None"

definition jobPattern :: "string \<Rightarrow> (string \<times> string) option" where
  "jobPattern path = jobGroups (splitOn CHR ''/'' path)"

definition mailboxPattern :: "string \<Rightarrow> string option" where
  "mailboxPattern path = mailboxGroups (splitOn CHR ''/'' path)"

definition text_response :: "nat \<Rightarrow> string \<Rightarrow> Response" where
  "text_response st txt = \<lparr>res_status = st, res_body = Text txt\<rparr>"

definition json_response :: "json \<Rightarrow> Response" where
  "json_response v = \<lparr>res_status = 200, res_body = Json v\<rparr>"

definition json_of_message :: "Message \<Rightarrow> json" where
  "json_of_message m =
     JObject [(''source'', JString (source m)), (''timestamp'', JDate (msg_timestamp m)),
              (''message'', JString (message m))]"

definition json_of_run :: "RunStatusEntry \<Rightarrow> json" where
  "json_of_run r =
     JObject ((''timestamp'', JDate (timestamp r))
              # (case statusCode r of None \<Rightarrow> [] | Some c \<Rightarrow> [(''statusCode'', JNumber c)]))"

text \<open>\<open>fs\<close> is the outcome of the filesystem call of the log routes (\<open>serveFile\<close>,
  \<open>Deno.remove\<close>): \<open>None\<close> when it succeeds, what it throws otherwise.\<close>

definition jobHandler ::
  "Request \<Rightarrow> string \<Rightarrow> string \<Rightarrow> int \<Rightarrow> Thrown option \<Rightarrow> ChronService \<Rightarrow> Response \<times> ChronService" where
  "jobHandler req jobName command' now fs s =
     (case map_of (jobs s) jobName of
        None \<Rightarrow> (text_response 404 ''Not Found'', s)
      | Some jref \<Rightarrow>
          (let job = jobObjs s ! jref in
           if command' = ''status'' then
             (if http_method req = ''GET'' then
                (json_response (JObject
                   ([(''name'', JString (name job)),
                     (''type'', JString (case jobType job of Startup \<Rightarrow> ''startup''
                                         | Scheduled c tid \<Rightarrow> ''scheduled'')),
                     (''runs'', JArray (map json_of_run (take 3 (getLastRuns s (name job)))))]
                    @ (case jobType job of Startup \<Rightarrow> []
                       | Scheduled c tid \<Rightarrow> [(''nextRun'', JDate (getNextDate c now))])
                    @ (case process job of None \<Rightarrow> []
                       | Some pid \<Rightarrow> [(''pid'', JNumber (int pid))]))), s)
              else (text_response 405 ''Invalid Method'', s))
           else if command' = ''logs'' then
             (if http_method req = ''GET'' then
                ((case fs of None \<Rightarrow> \<lparr>res_status = 200, res_body = File (logFile job)\<rparr>
                  | Some err \<Rightarrow> handleFsError err), s)
              else if http_method req = ''DELETE'' then
                ((case fs of None \<Rightarrow> text_response 200 ''Deleted log file''
                  | Some err \<Rightarrow> handleFsError err), s)
              else (text_response 405 ''Invalid Method'', s))
           else if command' = ''mailbox'' then
             (if http_method req = ''GET'' then
                (json_response (JArray (map json_of_message (getMessages (name job) (mailbox s)))), s)
              else if http_method req = ''POST'' then
                (let (m, db) = addMessage (name job) (req_text req) now (mailbox s) in
                 (json_response (json_of_message m),
                  emit Http [AddMessage (name job) (req_text req)] (s\<lparr>mailbox := db\<rparr>)))
              else if http_method req = ''DELETE'' then
                (let (ms, db) = clearMessages (name job) (mailbox s) in
                 (json_response (JArray (map json_of_message ms)), s\<lparr>mailbox := db\<rparr>))
              else (text_response 405 ''Invalid Method'', s))
           else if command' = ''terminate'' then
             (if http_method req = ''POST'' then
                (case process job of
                   Some pid \<Rightarrow> (text_response 200 ''Terminated job'', kill Http pid s)
                 | None \<Rightarrow> (text_response 200 ''Job not running'', s))
              else (text_response 405 ''Invalid Method'', s))
           else (text_response 404 ''Not Found'', s)))"

definition mailboxHandler :: "Request \<Rightarrow> string \<Rightarrow> ChronService \<Rightarrow> Response \<times> ChronService" where
  "mailboxHandler req command' s =
     (if command' = ''messages'' then
        (if http_method req = ''GET'' then
           (json_response (JArray (map json_of_message (getAllMessages (mailbox s)))), s)
         else if http_method req = ''DELETE'' then
           (let (ms, db) = clearAllMessages (mailbox s) in
            (json_response (JArray (map json_of_message ms)), s\<lparr>mailbox := db\<rparr>))
         else (text_response 405 ''Invalid Method'', s))
      else if command' = ''count'' then
        (json_response (JNumber (int (length (getAllMessages (mailbox s))))), s)
      else (text_response 405 ''Invalid Method'', s))"

definition httpHandler ::
  "Request \<Rightarrow> int \<Rightarrow> Thrown option \<Rightarrow> ChronService \<Rightarrow> Response \<times> ChronService" where
  "httpHandler req now fs s =
     (if http_method req = ''GET'' \<and> pathname req = ''/'' then
        (json_response (JArray (map (\<lambda>(nm, jref).
            JObject [(''name'', JString (name (jobObjs s ! jref))),
                     (''running'', JBool (process (jobObjs s ! jref) \<noteq> None))]) (jobs s))), s)
      else
        (case jobPattern (pathname req) of
           Some (job, command') \<Rightarrow> jobHandler req job command' now fs s
         | None \<Rightarrow>
             (case mailboxPattern (pathname req) of
                Some command' \<Rightarrow> mailboxHandler req command' s
              | None \<Rightarrow> (text_response 400 ''Bad Request'', s))))"

text \<open>
  The routes as the specification tabulates them: a method and the segments of a path
  pattern. A path matches a pattern when it has the pattern's segments, a \<open>:name\<close> segment
  standing for any non-empty segment.
\<close>

definition spec_routes :: "(string \<times> string list) list" where
  "spec_routes =
     [(''GET'', [[]]),
      (''GET'', [''job'', '':name'', ''status'']),
      (''GET'', [''job'', '':name'', ''logs'']),
      (''DELETE'', [''job'', '':name'', ''logs'']),
      (''GET'', [''job'', '':name'', ''mailbox'']),
      (''POST'', [''job'', '':name'', ''mailbox'']),
      (''DELETE'', [''job'', '':name'', ''mailbox'']),
      (''POST'', [''job'', '':name'', ''terminate'']),
      (''GET'', [''mailbox'', ''messages'']),
      (''DELETE'', [''mailbox'', ''messages'']),
      (''GET'', [''mailbox'', ''count''])]"

fun segments_match :: "string list \<Rightarrow> string list \<Rightarrow> bool" where
  "segments_match [] [] = True"
| "segments_match (p # ps) (x # xs) =
     ((if p = '':name'' then x \<noteq> [] else x = p) \<and> segments_match ps xs)"
| "segments_match ps xs = False"

definition route_matches :: "string list \<Rightarrow> string \<Rightarrow> bool" where
  "route_matches pat path =
     (case splitOn CHR ''/'' path of
        e # segs \<Rightarrow> e = [] \<and> segments_match pat segs
      | [] \<Rightarrow> False)"

definition spec_path_matched :: "string \<Rightarrow> bool" where
  "spec_path_matched path = list_ex (\<lambda>(m, pat). route_matches pat path) spec_routes"

definition spec_method_supported :: "string \<Rightarrow> string \<Rightarrow> bool" where
  "spec_method_supported m path =
     list_ex (\<lambda>(m', pat). m' = m \<and> route_matches pat path) spec_routes"

section \<open>The chronfile\<close>












section \<open>The entry point\<close>

text \<open>\<open>parseInt(rawPort, 10)\<close>: leading white space, an optional sign, then the longest
  run of decimal digits; \<open>None\<close> is \<open>NaN\<close>.\<close>

definition isDigit :: "char \<Rightarrow> bool" where
  "isDigit c = in_range CHR ''0'' CHR ''9'' c"

definition isWhiteSpace :: "char \<Rightarrow> bool" where
  "isWhiteSpace c = ((of_char c :: nat) \<in> {9, 10, 11, 12, 13, 32})"

definition digits_value :: "string \<Rightarrow> nat" where
  "digits_value ds = foldl (\<lambda>a c. 10 * a + (of_char c - of_char CHR ''0'')) 0 ds"

definition parseInt :: "string \<Rightarrow> int option" where
  "parseInt str =
     (let t = dropWhile isWhiteSpace str;
          neg = (t \<noteq> [] \<and> hd t = CHR ''-'');
          u = (if t \<noteq> [] \<and> (hd t = CHR ''-'' \<or> hd t = CHR ''+'') then tl t else t);
          ds = takeWhile isDigit u
      in if ds = [] then None
         else Some (if neg then - int (digits_value ds) else int (digits_value ds)))"

text \<open>The entry point up to the construction of the service: exit code 1, or the service.
  \<open>PORT\<close> and \<open>HOME\<close> are the environment variables.\<close>

definition entry :: "string option \<Rightarrow> string \<Rightarrow> nat + ChronService" where
  "entry PORT HOME =
     (let rawPort = (case PORT of None \<Rightarrow> [] | Some v \<Rightarrow> v) in
      case parseInt rawPort of
        None \<Rightarrow> Inl 1
      | Some p \<Rightarrow> Inr (new_ChronService p (HOME @ ''/.local/share/chron'')))"

section \<open>The system\<close>

text \<open>
  Everything that can happen to a running supervisor: a call of its interface, a firing
  of a scheduled task, the resumption of a suspended activation, the exit of a child, an
  HTTP request. A resumption that is not possible yet leaves the state as it is.
\<close>

datatype action =
    DoStartup string string StartupOptions int
  | DoSchedule string string string ScheduleOptions
  | DoReset
  | Fire nat int
  | ResumeJob nat string int
  | ResumeStartup nat int
  | ResumeSchedule nat int
  | ChildExit nat int
  | DoHttp Request int "Thrown option"

fun step :: "(string \<Rightarrow> Cron option) \<Rightarrow> action \<Rightarrow> ChronService \<Rightarrow> ChronService" where
  "step P (DoStartup nm command' options now) s = snd (startup nm command' options now s)"
| "step P (DoSchedule nm sched command' options) s = snd (schedule P nm sched command' options s)"
| "step P DoReset s = reset s"
| "step P (Fire tid now) s = callback tid now s"
| "step P (ResumeJob i uuid now) s = resumeJob i uuid now s"
| "step P (ResumeStartup a now) s = resumeStartup a now s"
| "step P (ResumeSchedule a now) s = resumeSchedule a now s"
| "step P (ChildExit pid c) s = childExit pid c s"
| "step P (DoHttp req now fs) s = snd (httpHandler req now fs s)"

definition run :: "(string \<Rightarrow> Cron option) \<Rightarrow> action list \<Rightarrow> ChronService \<Rightarrow> ChronService" where
  "run P acts s = fold (step P) acts s"

inductive reachable :: "(string \<Rightarrow> Cron option) \<Rightarrow> ChronService \<Rightarrow> bool"
  for P :: "string \<Rightarrow> Cron option" where
  reachable_new: "reachable P (new_ChronService p dir)"
| reachable_step: "reachable P s \<Longrightarrow> reachable P (step P a s)"

text \<open>A parser that knows one expression, for the examples.\<close>

definition example_parser :: "string \<Rightarrow> Cron option" where
  "example_parser e = (if e = ''* * * * *'' then Some every_minute else None)"

section \<open>Invariants\<close>

definition http_frame :: "ChronService \<Rightarrow> ChronService \<Rightarrow> bool" where
  "http_frame s s' =
     (\<exists>mb ch es. s' = s\<lparr>mailbox := mb, children := ch, trace := trace s @ map (Pair Http) es\<rparr>
        \<and> length ch = length (children s)
        \<and> (\<forall>p. exited (ch ! p) = exited (children s ! p) \<and> env (ch ! p) = env (children s ! p)
               \<and> cmd (ch ! p) = cmd (children s ! p)))"

definition script :: "ChronService \<Rightarrow> Job \<Rightarrow> Execution \<Rightarrow> event list" where
  "script s j x =
     [StderrRunning (startTime x) (name j) (command j),
      InsertStatus (run_id x) (name j) (startTime x),
      EnsureDir (logDir s),
      OpenLog (logFile j),
      WriteHeader (logFile j) (startTime x),
      Run (child x) [''sh'', ''-c'', command j] (mailbox_env s j),
      UpdateStatus (run_id x) (code (status x))]
     @ (if success (status x) then []
        else [AddMessage ''@errors''
                (name j @ '' failed with status code '' @ string_of_int (code (status x)))])
     @ [WriteFooter (logFile j) (code (status x)), CloseLog (logFile j)]"

definition steps_of :: "ChronService \<Rightarrow> nat \<Rightarrow> event list" where
  "steps_of s i = script s (jobObjs s ! exec_job (executions s ! i)) (executions s ! i)"

definition steps_done :: "Execution \<Rightarrow> nat" where
  "steps_done x =
     (case at x of
        Aborted \<Rightarrow> 0
      | AwaitStderr \<Rightarrow> 1
      | AwaitInsert \<Rightarrow> 2
      | AwaitEnsureDir \<Rightarrow> 3
      | AwaitOpen \<Rightarrow> 4
      | AwaitHeader \<Rightarrow> 5
      | AwaitStatus \<Rightarrow> 6
      | AwaitUpdate \<Rightarrow> 7
      | AwaitFooter \<Rightarrow> (if success (status x) then 8 else 9)
      | Returned \<Rightarrow> (if success (status x) then 9 else 10))"

definition spawned :: "Execution \<Rightarrow> bool" where
  "spawned x = (at x = AwaitStatus \<or> at x = AwaitUpdate \<or> at x = AwaitFooter \<or> at x = Returned)"

definition exited_known :: "Execution \<Rightarrow> bool" where
  "exited_known x = (at x = AwaitUpdate \<or> at x = AwaitFooter \<or> at x = Returned)"

definition exec_ok :: "ChronService \<Rightarrow> nat \<Rightarrow> bool" where
  "exec_ok s i =
     (exec_job (executions s ! i) < length (jobObjs s)
      \<and> events_of (Exec i) s = take (steps_done (executions s ! i)) (steps_of s i)
      \<and> (spawned (executions s ! i) \<longrightarrow> child (executions s ! i) < length (children s))
      \<and> (exited_known (executions s ! i) \<longrightarrow>
            exited (children s ! child (executions s ! i)) = Some (status (executions s ! i))))"

definition refs_ok :: "ChronService \<Rightarrow> bool" where
  "refs_ok s = ((\<forall>a < length (loops s). loop_job (loops s ! a) < length (jobObjs s))
        \<and> (\<forall>a < length (catchups s). catchup_job (catchups s ! a) < length (jobObjs s))
        \<and> (\<forall>t \<in> set (scheduler s). task_job (snd t) < length (jobObjs s)
               \<and> name (jobObjs s ! task_job (snd t)) = task_name (snd t)))"

definition fresh :: "ChronService \<Rightarrow> bool" where
  "fresh s = (\<forall>i. length (executions s) \<le> i \<longrightarrow> events_of (Exec i) s = [])"

definition execs_ok :: "ChronService \<Rightarrow> bool" where
  "execs_ok s = ((\<forall>i < length (executions s). exec_ok s i) \<and> fresh s)"

definition extends :: "ChronService \<Rightarrow> ChronService \<Rightarrow> bool" where
  "extends s s' =
     (port s' = port s \<and> logDir s' = logDir s
      \<and> length (jobObjs s) \<le> length (jobObjs s')
      \<and> (\<forall>j < length (jobObjs s). name (jobObjs s' ! j) = name (jobObjs s ! j)
             \<and> command (jobObjs s' ! j) = command (jobObjs s ! j)
             \<and> logFile (jobObjs s' ! j) = logFile (jobObjs s ! j))
      \<and> length (children s) \<le> length (children s')
      \<and> (\<forall>p < length (children s). \<forall>st. exited (children s ! p) = Some st
             \<longrightarrow> exited (children s' ! p) = Some st))"

definition quiet :: "ChronService \<Rightarrow> ChronService \<Rightarrow> bool" where
  "quiet s s' = (extends s s' \<and> executions s' = executions s
                 \<and> (\<forall>i. events_of (Exec i) s' = events_of (Exec i) s))"

definition shape :: "ChronService \<Rightarrow> ChronService \<Rightarrow> bool" where
  "shape s s' = (\<exists>s1. quiet s s1 \<and>
       (s' = s1 \<or> (\<exists>j now. j < length (jobObjs s1) \<and> s' = executeJob j now s1)))"

definition valid_name :: "string \<Rightarrow> bool" where "valid_name nm = (nm \<noteq> [] \<and> regex_test kebab_case nm)"

text \<open>The calls \<open>load\<close> makes, as the trace records them.\<close>

definition is_call :: "event \<Rightarrow> bool" where
  "is_call e =
     (case e of
        CallReset \<Rightarrow> True
      | CallStartup nm c opts \<Rightarrow> True
      | CallSchedule nm sched c opts \<Rightarrow> True
      | ReadTextFile path \<Rightarrow> True
      | _ \<Rightarrow> False)"

definition api_calls :: "ChronService \<Rightarrow> event list" where
  "api_calls s = filter is_call (events_of Api s)"

section \<open>Lemmas\<close>

lemma star_append: "u \<in> star L \<Longrightarrow> v \<in> star L \<Longrightarrow> u @ v \<in> star L"
  by (induction rule: star.induct) (auto intro: star.intros)

lemma star_cons_split:
  assumes "w \<in> star L" and "w = c # x"
  shows "\<exists>u v. x = u @ v \<and> c # u \<in> L \<and> v \<in> star L"
  using assms
proof (induction arbitrary: x rule: star.induct)
  case star_empty
  then show ?case by simp
next
  case (star_more u v)
  show ?case
  proof (cases u)
    case Nil
    with star_more show ?thesis by simp
  next
    case (Cons a u')
    with star_more.prems have "a = c" and "x = u' @ v" by simp_all
    with Cons star_more.hyps show ?thesis by blast
  qed
qed

lemma nullable_lang: "nullable r \<longleftrightarrow> [] \<in> lang r"
  by (induction r) (auto intro: star.intros)

lemma lang_deriv: "w \<in> lang (deriv c r) \<longleftrightarrow> c # w \<in> lang r"
proof (induction r arbitrary: w)
  case (Seq r s)
  show ?case
  proof
    assume "w \<in> lang (deriv c (Seq r s))"
    then consider (left) u v where "w = u @ v" "u \<in> lang (deriv c r)" "v \<in> lang s"
      | (right) "nullable r" "w \<in> lang (deriv c s)"
      by (auto split: if_splits)
    then show "c # w \<in> lang (Seq r s)"
    proof cases
      case left
      then have "c # u \<in> lang r" using Seq.IH(1) by simp
      with left show ?thesis by (metis (mono_tags, lifting) lang.simps(5) mem_Collect_eq append_Cons)
    next
      case right
      then have "[] \<in> lang r" "c # w \<in> lang s" using Seq.IH(2) nullable_lang by auto
      then show ?thesis by (metis (mono_tags, lifting) lang.simps(5) mem_Collect_eq append_Nil)
    qed
  next
    assume "c # w \<in> lang (Seq r s)"
    then obtain u v where uv: "c # w = u @ v" "u \<in> lang r" "v \<in> lang s" by auto
    show "w \<in> lang (deriv c (Seq r s))"
    proof (cases u)
      case Nil
      with uv have "nullable r" "w \<in> lang (deriv c s)" using Seq.IH(2) nullable_lang by auto
      then show ?thesis by simp
    next
      case (Cons a u')
      with uv have "u' \<in> lang (deriv c r)" "w = u' @ v" using Seq.IH(1) by auto
      with uv(3) show ?thesis by auto
    qed
  qed
next
  case (Star r)
  show ?case
  proof
    assume "w \<in> lang (deriv c (Star r))"
    then obtain u v where "w = u @ v" "u \<in> lang (deriv c r)" "v \<in> star (lang r)" by auto
    then have "c # u \<in> lang r" using Star.IH by simp
    from this \<open>v \<in> star (lang r)\<close> have "(c # u) @ v \<in> star (lang r)" by (rule star.star_more)
    with \<open>w = u @ v\<close> show "c # w \<in> lang (Star r)" by simp
  next
    assume "c # w \<in> lang (Star r)"
    then have "c # w \<in> star (lang r)" by simp
    from star_cons_split [OF this refl]
    obtain u v where "w = u @ v" "c # u \<in> lang r" "v \<in> star (lang r)" by blast
    then show "w \<in> lang (deriv c (Star r))" using Star.IH by auto
  qed
qed auto

lemma regex_test_lang: "regex_test r w \<longleftrightarrow> w \<in> lang r"
  unfolding regex_test_def
  by (induction w arbitrary: r) (simp_all add: nullable_lang lang_deriv)

lemma fold_pres: "(\<And>x s. Q s \<Longrightarrow> Q (f x s)) \<Longrightarrow> Q s \<Longrightarrow> Q (fold f xs s)"
  by (induction xs arbitrary: s) auto

lemma nth_update_field: "(\<And>x. f (g x) = f x) \<Longrightarrow> f ((xs[i := g (xs ! i)]) ! p) = f (xs ! p)"
  by (cases "i < length xs"; cases "p = i") (auto simp: list_update_beyond)

lemma kills_keep:
  "(\<And>pid s. F (kill w pid s) = F s) \<Longrightarrow> F (fold (\<lambda>(i, pid). kill w pid) ls s) = F s"
  by (induction ls arbitrary: s) auto

lemma kills_trace:
  "trace (fold (\<lambda>(i, pid). kill w pid) ls s) = trace s @ map (\<lambda>(i, pid). (w, Kill pid)) ls"
  by (induction ls arbitrary: s) (auto simp: kill_def emit_def)

lemma abort_fields [simp]:
  "executions (abort c s) = executions s"
  "jobObjs (abort c s) = jobObjs s"
  "loops (abort c s) = loops s"
  "catchups (abort c s) = catchups s"
  "scheduler (abort c s) = scheduler s"
  "jobs (abort c s) = jobs s"
  "port (abort c s) = port s"
  "logDir (abort c s) = logDir s"
  "statusDb (abort c s) = statusDb s"
  "mailbox (abort c s) = mailbox s"
  "abortController (abort c s) = abortController s"
  "nextTaskId (abort c s) = nextTaskId s"
  "length (children (abort c s)) = length (children s)"
  "length (controllers (abort c s)) = length (controllers s)"
  by (simp_all add: abort_def Let_def kills_keep kill_def emit_def
        kills_keep [where F = "\<lambda>s. length (children s)"]
        kills_keep [where F = "\<lambda>s. length (controllers s)"])

lemma abort_child [simp]:
  "exited (children (abort c s) ! p) = exited (children s ! p)"
  "env (children (abort c s) ! p) = env (children s ! p)"
  "cmd (children (abort c s) ! p) = cmd (children s ! p)"
  by (simp_all add: abort_def Let_def kill_def emit_def nth_update_field
        kills_keep [where F = "\<lambda>s. exited (children s ! p)"]
        kills_keep [where F = "\<lambda>s. env (children s ! p)"]
        kills_keep [where F = "\<lambda>s. cmd (children s ! p)"])

lemma abort_trace:
  "trace (abort c s) = trace s @
     (if aborted (controllers s ! c) then []
      else map (\<lambda>(i, pid). (Api, Kill pid)) (listeners (controllers s ! c)))"
  by (simp add: abort_def Let_def kills_trace)

lemma frame_refl: "http_frame s s"
  unfolding http_frame_def
  by (rule exI [of _ "mailbox s"], rule exI [of _ "children s"], rule exI [of _ "[]"]) simp

lemma frame_mailbox: "http_frame s (s\<lparr>mailbox := db\<rparr>)"
  unfolding http_frame_def
  by (rule exI [of _ db], rule exI [of _ "children s"], rule exI [of _ "[]"]) simp

lemma frame_post: "http_frame s (emit Http es (s\<lparr>mailbox := db\<rparr>))"
  unfolding http_frame_def
  by (rule exI [of _ db], rule exI [of _ "children s"], rule exI [of _ es]) (simp add: emit_def)

lemma frame_kill: "http_frame s (kill Http pid s)"
  unfolding http_frame_def
  by (rule exI [of _ "mailbox s"],
      rule exI [of _ "(children s)[pid := (children s ! pid)\<lparr>sigterm := True\<rparr>]"],
      rule exI [of _ "[Kill pid]"]) (simp add: kill_def emit_def nth_update_field)

lemma frame_if:
  "http_frame s (snd a) \<Longrightarrow> http_frame s (snd b) \<Longrightarrow> http_frame s (snd (if c then a else b))"
  by simp

lemma frame_opt:
  "http_frame s (snd a) \<Longrightarrow> (\<And>x. http_frame s (snd (f x)))
     \<Longrightarrow> http_frame s (snd (case v of None \<Rightarrow> a | Some x \<Rightarrow> f x))"
  by (cases v) auto

lemma frame_jobHandler: "http_frame s (snd (jobHandler req job c now fs s))"
  unfolding jobHandler_def Let_def case_prod_beta
  by (intro frame_if frame_opt; simp add: frame_refl frame_mailbox frame_post frame_kill)

lemma frame_mailboxHandler: "http_frame s (snd (mailboxHandler req c s))"
  unfolding mailboxHandler_def Let_def case_prod_beta
  by (intro frame_if frame_opt; simp add: frame_refl frame_mailbox frame_post frame_kill)

lemma frame_httpHandler: "http_frame s (snd (httpHandler req now fs s))"
  unfolding httpHandler_def case_prod_beta
  by (intro frame_if frame_opt; simp add: frame_refl frame_jobHandler frame_mailboxHandler)

lemma http_fields [simp]:
  "executions (snd (httpHandler req now fs s)) = executions s"
  "jobObjs (snd (httpHandler req now fs s)) = jobObjs s"
  "loops (snd (httpHandler req now fs s)) = loops s"
  "catchups (snd (httpHandler req now fs s)) = catchups s"
  "scheduler (snd (httpHandler req now fs s)) = scheduler s"
  "jobs (snd (httpHandler req now fs s)) = jobs s"
  "port (snd (httpHandler req now fs s)) = port s"
  "logDir (snd (httpHandler req now fs s)) = logDir s"
  "statusDb (snd (httpHandler req now fs s)) = statusDb s"
  "controllers (snd (httpHandler req now fs s)) = controllers s"
  "abortController (snd (httpHandler req now fs s)) = abortController s"
  "nextTaskId (snd (httpHandler req now fs s)) = nextTaskId s"
  "length (children (snd (httpHandler req now fs s))) = length (children s)"
  "exited (children (snd (httpHandler req now fs s)) ! p) = exited (children s ! p)"
  "env (children (snd (httpHandler req now fs s)) ! p) = env (children s ! p)"
  "cmd (children (snd (httpHandler req now fs s)) ! p) = cmd (children s ! p)"
  using frame_httpHandler [of s req now fs] unfolding http_frame_def by auto

lemma http_trace:
  "\<exists>es. trace (snd (httpHandler req now fs s)) = trace s @ map (Pair Http) es"
  using frame_httpHandler [of s req now fs] unfolding http_frame_def by auto

lemma events_of_emit: "events_of who (emit w es s) = events_of who s @ (if w = who then es else [])"
  by (induction es) (auto simp: events_of_def emit_def)

lemma events_of_trace: "trace s' = trace s \<Longrightarrow> events_of w s' = events_of w s"
  by (simp add: events_of_def)

lemma exec_ok_resume:
  assumes "exec_ok s i" "i < length (executions s)"
  shows "exec_ok (resumeJob i uuid now s) i"
  using assms
  by (cases "at (executions s ! i)")
     (simp_all add: exec_ok_def resumeJob_def Let_def goto_def steps_of_def script_def
        steps_done_def spawned_def exited_known_def mailbox_env_def events_of_def emit_def
        split: option.splits)

lemma set_update_cases: "x \<in> set (xs[i := v]) \<Longrightarrow> x = v \<or> x \<in> set xs"
  by (metis in_set_conv_nth length_list_update nth_list_update_eq nth_list_update_neq)

lemma executeJob_fields [simp]:
  "jobObjs (executeJob j now s) = jobObjs s"
  "loops (executeJob j now s) = loops s"
  "catchups (executeJob j now s) = catchups s"
  "scheduler (executeJob j now s) = scheduler s"
  "jobs (executeJob j now s) = jobs s"
  "port (executeJob j now s) = port s"
  "logDir (executeJob j now s) = logDir s"
  "statusDb (executeJob j now s) = statusDb s"
  "mailbox (executeJob j now s) = mailbox s"
  "children (executeJob j now s) = children s"
  "controllers (executeJob j now s) = controllers s"
  "abortController (executeJob j now s) = abortController s"
  "nextTaskId (executeJob j now s) = nextTaskId s"
  "length (executions (executeJob j now s)) = Suc (length (executions s))"
  by (simp_all add: executeJob_def Let_def emit_def)

lemma refs_ok_executeJob [simp]: "refs_ok (executeJob j now s) = refs_ok s"
  by (simp add: refs_ok_def)

lemma refs_ok_emit [simp]: "refs_ok (emit w es s) = refs_ok s"
  by (simp add: refs_ok_def emit_def)

lemma refs_ok_update_process:
  "refs_ok s \<Longrightarrow> refs_ok (s\<lparr>jobObjs := (jobObjs s)[k := (jobObjs s ! k)\<lparr>process := p\<rparr>]\<rparr>)"
  by (simp add: refs_ok_def nth_update_field [where f = name and g = "\<lambda>j. j\<lparr>process := p\<rparr>"])

lemma refs_ok_resumeJob: "refs_ok s \<Longrightarrow> refs_ok (resumeJob i uuid now s)"
  apply (cases "i < length (executions s)")
   apply (cases "at (executions s ! i)")
  apply (simp_all add: resumeJob_def Let_def goto_def emit_def split: option.splits)
  apply (simp_all add: refs_ok_def nth_update_field [where f = name and g = "\<lambda>j. j\<lparr>process := p\<rparr>" for p])
  done

lemmas prims = emit_def goto_def kill_def

lemma loop_update [simp]:
  "loop_job (ls[a := (ls ! a)\<lparr>loop_at := v\<rparr>] ! k) = loop_job (ls ! k)"
  "loop_signal (ls[a := (ls ! a)\<lparr>loop_at := v\<rparr>] ! k) = loop_signal (ls ! k)"
  "loop_keepAlive (ls[a := (ls ! a)\<lparr>loop_at := v\<rparr>] ! k) = loop_keepAlive (ls ! k)"
  by (rule nth_update_field, simp)+

lemma catchup_update [simp]:
  "catchup_job (cs[a := (cs ! a)\<lparr>catchup_at := v\<rparr>] ! k) = catchup_job (cs ! k)"
  "catchup_name (cs[a := (cs ! a)\<lparr>catchup_at := v\<rparr>] ! k) = catchup_name (cs ! k)"
  "catchup_schedule (cs[a := (cs ! a)\<lparr>catchup_at := v\<rparr>] ! k) = catchup_schedule (cs ! k)"
  "catchup_option (cs[a := (cs ! a)\<lparr>catchup_at := v\<rparr>] ! k) = catchup_option (cs ! k)"
  "lastRunTime (cs[a := (cs ! a)\<lparr>catchup_at := v\<rparr>] ! k) = lastRunTime (cs ! k)"
  "counted_at (cs[a := (cs ! a)\<lparr>catchup_at := v\<rparr>] ! k) = counted_at (cs ! k)"
  "missedRuns (cs[a := (cs ! a)\<lparr>catchup_at := v\<rparr>] ! k) = missedRuns (cs ! k)"
  "makeUpRuns (cs[a := (cs ! a)\<lparr>catchup_at := v\<rparr>] ! k) = makeUpRuns (cs ! k)"
  by (rule nth_update_field, simp)+

lemma catchup_count_update [simp]:
  "catchup_job (cs[a := (cs ! a)\<lparr>counted_at := n, missedRuns := m, makeUpRuns := u\<rparr>] ! k) = catchup_job (cs ! k)"
  "catchup_name (cs[a := (cs ! a)\<lparr>counted_at := n, missedRuns := m, makeUpRuns := u\<rparr>] ! k) = catchup_name (cs ! k)"
  "catchup_schedule (cs[a := (cs ! a)\<lparr>counted_at := n, missedRuns := m, makeUpRuns := u\<rparr>] ! k) = catchup_schedule (cs ! k)"
  "catchup_option (cs[a := (cs ! a)\<lparr>counted_at := n, missedRuns := m, makeUpRuns := u\<rparr>] ! k) = catchup_option (cs ! k)"
  "lastRunTime (cs[a := (cs ! a)\<lparr>counted_at := n, missedRuns := m, makeUpRuns := u\<rparr>] ! k) = lastRunTime (cs ! k)"
  "catchup_at (cs[a := (cs ! a)\<lparr>counted_at := n, missedRuns := m, makeUpRuns := u\<rparr>] ! k) = catchup_at (cs ! k)"
  by (rule nth_update_field [where g = "\<lambda>c. c\<lparr>counted_at := n, missedRuns := m, makeUpRuns := u\<rparr>"], simp)+

lemma job_update [simp]:
  "name (js[a := (js ! a)\<lparr>process := v\<rparr>] ! k) = name (js ! k)"
  "command (js[a := (js ! a)\<lparr>process := v\<rparr>] ! k) = command (js ! k)"
  "logFile (js[a := (js ! a)\<lparr>process := v\<rparr>] ! k) = logFile (js ! k)"
  "abortSignal (js[a := (js ! a)\<lparr>process := v\<rparr>] ! k) = abortSignal (js ! k)"
  "jobType (js[a := (js ! a)\<lparr>process := v\<rparr>] ! k) = jobType (js ! k)"
  by (rule nth_update_field, simp)+

lemma refs_ok_startupLoop: "refs_ok s \<Longrightarrow> refs_ok (startupLoop a now s)"
  by (auto simp: startupLoop_def Let_def refs_ok_def prims)

lemma refs_ok_startup: "refs_ok s \<Longrightarrow> refs_ok (snd (startup nm c opts now s))"
  by (auto simp: startup_def Let_def refs_ok_def nth_append prims startupLoop_def
      split: sum.splits)

lemma refs_ok_resumeStartup: "refs_ok s \<Longrightarrow> refs_ok (resumeStartup a now s)"
  by (auto simp: resumeStartup_def Let_def refs_ok_startupLoop split: LoopState.splits)
     (auto simp: refs_ok_def)

lemma refs_ok_schedule: "refs_ok s \<Longrightarrow> refs_ok (snd (schedule P nm sc c opts s))"
  by (auto simp: schedule_def Let_def refs_ok_def nth_append emit_def
      split: sum.splits option.splits)

lemma refs_ok_catchUp: "refs_ok s \<Longrightarrow> refs_ok (catchUp a r now s)"
  by (auto simp: catchUp_def Let_def refs_ok_def prims)

lemma refs_ok_countRuns: "refs_ok s \<Longrightarrow> refs_ok (countRuns a now s)"
  by (simp add: countRuns_def Let_def refs_ok_def prims)

lemma refs_ok_resumeSchedule: "refs_ok s \<Longrightarrow> refs_ok (resumeSchedule a now s)"
  by (simp add: resumeSchedule_def refs_ok_catchUp refs_ok_countRuns split: CatchUpState.splits)

lemma refs_ok_callback: "refs_ok s \<Longrightarrow> refs_ok (callback t now s)"
  by (auto simp: callback_def split: option.splits)

lemma refs_ok_childExit: "refs_ok s \<Longrightarrow> refs_ok (childExit p c s)"
  by (auto simp: childExit_def refs_ok_def)

lemma refs_ok_http: "refs_ok s \<Longrightarrow> refs_ok (snd (httpHandler req now fs s))"
  by (simp add: refs_ok_def)

lemma unregister_subset:
  "set (fold (\<lambda>(nm, job) tasks. case jobType (J ! job) of
                 Scheduled c tid \<Rightarrow> unregisterTask tid tasks | Startup \<Rightarrow> tasks) js ts) \<subseteq> set ts"
proof (induction js arbitrary: ts)
  case Nil
  show ?case by simp
next
  case (Cons j js)
  have "set ((\<lambda>(nm, job) tasks. case jobType (J ! job) of
                 Scheduled c tid \<Rightarrow> unregisterTask tid tasks | Startup \<Rightarrow> tasks) j ts) \<subseteq> set ts"
    by (cases j) (auto simp: unregisterTask_def split: JobType.splits)
  with Cons [of "(\<lambda>(nm, job) tasks. case jobType (J ! job) of
                 Scheduled c tid \<Rightarrow> unregisterTask tid tasks | Startup \<Rightarrow> tasks) j ts"]
  show ?case by (simp only: fold_simps)
qed

lemma refs_ok_reset: "refs_ok s \<Longrightarrow> refs_ok (reset s)"
  using unregister_subset [of "jobObjs s" "jobs s" "scheduler s"]
  by (auto simp: reset_def Let_def refs_ok_def emit_def)

lemma refs_ok_step: "refs_ok s \<Longrightarrow> refs_ok (step P a s)"
  by (cases a)
     (simp_all add: refs_ok_startup refs_ok_schedule refs_ok_reset refs_ok_callback
        refs_ok_resumeJob refs_ok_resumeStartup refs_ok_resumeSchedule refs_ok_childExit
        refs_ok_http)

lemma refs_ok_reachable: "reachable P s \<Longrightarrow> refs_ok s"
  by (induction rule: reachable.induct)
     (simp_all add: refs_ok_step, simp add: refs_ok_def new_ChronService_def)

lemmas exec_defs = exec_ok_def steps_of_def script_def steps_done_def spawned_def
  exited_known_def mailbox_env_def

lemma script_cong:
  "port s' = port s \<Longrightarrow> logDir s' = logDir s \<Longrightarrow> name j' = name j \<Longrightarrow> command j' = command j
     \<Longrightarrow> logFile j' = logFile j \<Longrightarrow> script s' j' x = script s j x"
  by (simp add: script_def mailbox_env_def)

lemma exited_known_spawned: "exited_known x \<Longrightarrow> spawned x"
  by (auto simp: exited_known_def spawned_def)

lemma exec_ok_frame:
  assumes ok: "exec_ok s k" and ext: "extends s s'"
    and same: "executions s' ! k = executions s ! k"
    and ev: "events_of (Exec k) s' = events_of (Exec k) s"
  shows "exec_ok s' k"
proof -
  let ?x = "executions s ! k"
  from ok have j: "exec_job ?x < length (jobObjs s)" by (simp add: exec_ok_def)
  with ext have j': "exec_job ?x < length (jobObjs s')" by (simp add: extends_def)
  from ext j have "script s' (jobObjs s' ! exec_job ?x) ?x = script s (jobObjs s ! exec_job ?x) ?x"
    by (intro script_cong) (simp_all add: extends_def)
  then have st: "steps_of s' k = steps_of s k" by (simp add: steps_of_def same)
  from ok have e: "events_of (Exec k) s = take (steps_done ?x) (steps_of s k)"
    by (simp add: exec_ok_def)
  have c: "child ?x < length (children s)" if "spawned ?x"
    using ok that by (simp add: exec_ok_def)
  then have c': "child ?x < length (children s')" if "spawned ?x"
    using ext that unfolding extends_def by fastforce
  have x: "exited (children s' ! child ?x) = Some (status ?x)" if "exited_known ?x"
  proof -
    from ok that have "exited (children s ! child ?x) = Some (status ?x)"
      by (simp add: exec_ok_def)
    moreover from that have "child ?x < length (children s)" by (simp add: c exited_known_spawned)
    ultimately show ?thesis using ext unfolding extends_def by blast
  qed
  show ?thesis
    unfolding exec_ok_def same ev st
    using j' e c' x by simp
qed

lemma extends_resume: "extends s (resumeJob i uuid now s)"
proof (cases "i < length (executions s)")
  case False
  then show ?thesis by (simp add: resumeJob_def extends_def)
next
  case True
  then show ?thesis
    by (cases "at (executions s ! i)")
       (simp_all add: extends_def resumeJob_def Let_def prims nth_append split: option.splits)
qed

lemma nth_resume_other:
  "k \<noteq> i \<Longrightarrow> executions (resumeJob i uuid now s) ! k = executions s ! k"
  by (cases "i < length (executions s)"; cases "at (executions s ! i)")
     (simp_all add: resumeJob_def Let_def prims split: option.splits)

lemma events_resume_other:
  "k \<noteq> i \<Longrightarrow> events_of (Exec k) (resumeJob i uuid now s) = events_of (Exec k) s"
  by (cases "i < length (executions s)"; cases "at (executions s ! i)")
     (simp_all add: resumeJob_def Let_def prims events_of_def split: option.splits)

lemma length_resume [simp]: "length (executions (resumeJob i uuid now s)) = length (executions s)"
  by (cases "i < length (executions s)"; cases "at (executions s ! i)")
     (simp_all add: resumeJob_def Let_def prims split: option.splits)

lemma fresh_resume:
  assumes "fresh s"
  shows "fresh (resumeJob i uuid now s)"
  unfolding fresh_def
proof (intro allI impI)
  fix k
  assume "length (executions (resumeJob i uuid now s)) \<le> k"
  then have k: "length (executions s) \<le> k" by simp
  show "events_of (Exec k) (resumeJob i uuid now s) = []"
  proof (cases "k = i")
    case True
    with k have "resumeJob i uuid now s = s" by (simp add: resumeJob_def)
    with k assms show ?thesis by (simp add: fresh_def)
  next
    case False
    with k assms show ?thesis by (simp add: events_resume_other fresh_def)
  qed
qed

lemma execs_ok_resumeJob:
  assumes "execs_ok s"
  shows "execs_ok (resumeJob i uuid now s)"
  unfolding execs_ok_def
proof (intro conjI allI impI)
  fix k
  assume "k < length (executions (resumeJob i uuid now s))"
  then have k: "k < length (executions s)" by simp
  with assms have ok: "exec_ok s k" by (simp add: execs_ok_def)
  show "exec_ok (resumeJob i uuid now s) k"
  proof (cases "k = i")
    case True
    with ok k show ?thesis by (simp add: exec_ok_resume)
  next
    case False
    with ok show ?thesis
      by (intro exec_ok_frame [OF _ extends_resume] nth_resume_other events_resume_other)
  qed
next
  from assms show "fresh (resumeJob i uuid now s)" by (simp add: execs_ok_def fresh_resume)
qed

lemma shape_quiet: "quiet s s' \<Longrightarrow> shape s s'"
  unfolding shape_def by blast

lemma shape_exec: "quiet s s1 \<Longrightarrow> j < length (jobObjs s1) \<Longrightarrow> shape s (executeJob j now s1)"
  unfolding shape_def by blast

lemma quiet_refl: "quiet s s"
  by (simp add: quiet_def extends_def)

lemma execs_ok_quiet:
  assumes "execs_ok s" and "quiet s s'"
  shows "execs_ok s'"
  unfolding execs_ok_def
proof (intro conjI allI impI)
  fix k
  assume "k < length (executions s')"
  with assms show "exec_ok s' k"
    by (intro exec_ok_frame [of s k s']) (simp_all add: execs_ok_def quiet_def)
next
  from assms show "fresh s'" by (simp add: execs_ok_def fresh_def quiet_def)
qed

lemma extends_executeJob: "extends s (executeJob j now s)"
  by (simp add: extends_def)

lemma execs_ok_executeJob:
  assumes "execs_ok s" and j: "j < length (jobObjs s)"
  shows "execs_ok (executeJob j now s)"
  unfolding execs_ok_def
proof (intro conjI allI impI)
  fix k
  assume "k < length (executions (executeJob j now s))"
  then consider "k < length (executions s)" | "k = length (executions s)" by fastforce
  then show "exec_ok (executeJob j now s) k"
  proof cases
    case 1
    with assms have "exec_ok s k" by (simp add: execs_ok_def)
    moreover from 1 have "executions (executeJob j now s) ! k = executions s ! k"
      by (simp add: executeJob_def Let_def prims nth_append)
    moreover from 1 have "events_of (Exec k) (executeJob j now s) = events_of (Exec k) s"
      by (simp add: executeJob_def Let_def prims events_of_def)
    ultimately show ?thesis by (intro exec_ok_frame [OF _ extends_executeJob])
  next
    case 2
    from assms have "events_of (Exec (length (executions s))) s = []"
      by (simp add: execs_ok_def fresh_def)
    then have "filter (\<lambda>(w, e). w = Exec (length (executions s))) (trace s) = []"
      by (simp add: events_of_def)
    with j show ?thesis unfolding 2
      by (simp add: exec_defs executeJob_def Let_def prims events_of_def)
  qed
next
  from assms show "fresh (executeJob j now s)"
    by (simp add: execs_ok_def fresh_def executeJob_def Let_def prims events_of_def)
qed

lemma execs_ok_shape: "execs_ok s \<Longrightarrow> shape s s' \<Longrightarrow> execs_ok s'"
  unfolding shape_def using execs_ok_quiet execs_ok_executeJob by blast

lemma shape_startupLoop:
  assumes "a < length (loops s)" "loop_job (loops s ! a) < length (jobObjs s)"
  shows "shape s (startupLoop a now s)"
proof (cases "aborted (controllers s ! loop_signal (loops s ! a))")
  case True
  then show ?thesis
    by (auto simp: startupLoop_def Let_def intro!: shape_quiet simp: quiet_def extends_def events_of_def)
next
  case False
  with assms show ?thesis
    by (auto simp: startupLoop_def Let_def intro!: shape_exec simp: quiet_def extends_def events_of_def prims)
qed

lemmas quiet_defs = quiet_def extends_def events_of_def prims

lemma extends_trans:
  assumes a: "extends s s1" and b: "extends s1 s2"
  shows "extends s s2"
  unfolding extends_def
proof (intro conjI allI impI)
  from a b show "port s2 = port s" "logDir s2 = logDir s" by (simp_all add: extends_def)
  from a b show "length (jobObjs s) \<le> length (jobObjs s2)"
    and "length (children s) \<le> length (children s2)"
    unfolding extends_def by linarith+
next
  fix j
  assume j: "j < length (jobObjs s)"
  with a have j1: "j < length (jobObjs s1)" unfolding extends_def by linarith
  from a j have "name (jobObjs s1 ! j) = name (jobObjs s ! j)"
    "command (jobObjs s1 ! j) = command (jobObjs s ! j)"
    "logFile (jobObjs s1 ! j) = logFile (jobObjs s ! j)" by (simp_all add: extends_def)
  moreover from b j1 have "name (jobObjs s2 ! j) = name (jobObjs s1 ! j)"
    "command (jobObjs s2 ! j) = command (jobObjs s1 ! j)"
    "logFile (jobObjs s2 ! j) = logFile (jobObjs s1 ! j)" by (simp_all add: extends_def)
  ultimately show "name (jobObjs s2 ! j) = name (jobObjs s ! j)"
    "command (jobObjs s2 ! j) = command (jobObjs s ! j)"
    "logFile (jobObjs s2 ! j) = logFile (jobObjs s ! j)" by simp_all
next
  fix p st
  assume p: "p < length (children s)" and e: "exited (children s ! p) = Some st"
  with a have p1: "p < length (children s1)" unfolding extends_def by linarith
  from a p e have "exited (children s1 ! p) = Some st" by (simp add: extends_def)
  with b p1 show "exited (children s2 ! p) = Some st" by (simp add: extends_def)
qed

lemma quiet_trans: "quiet s s1 \<Longrightarrow> quiet s1 s2 \<Longrightarrow> quiet s s2"
  unfolding quiet_def using extends_trans by auto

lemma shape_trans_quiet:
  assumes "quiet s s1" and "shape s1 s'"
  shows "shape s s'"
proof -
  from assms(2) obtain s2 where q: "quiet s1 s2"
    and c: "s' = s2 \<or> (\<exists>j now. j < length (jobObjs s2) \<and> s' = executeJob j now s2)"
    unfolding shape_def by blast
  from assms(1) q have "quiet s s2" by (rule quiet_trans)
  with c show ?thesis unfolding shape_def by blast
qed

lemma shape_startup: "shape s (snd (startup nm c opts now s))"
proof (cases "validateName (emit Api [CallStartup nm c opts] s) nm")
  case (Inl e)
  then show ?thesis
    by (auto simp: startup_def Let_def intro!: shape_quiet simp: quiet_defs)
next
  case (Inr u)
  let ?s = "emit Api [CallStartup nm c opts] s"
  let ?s1 = "?s\<lparr>jobObjs := jobObjs ?s @ [\<lparr>jobType = Startup, name = nm, command = c,
                      logFile = join (logDir ?s) (nm @ ''.log''), process = None,
                      abortSignal = abortController ?s\<rparr>],
                 jobs := jobs ?s @ [(nm, length (jobObjs ?s))],
                 loops := loops ?s @ [\<lparr>loop_job = length (jobObjs ?s),
                    loop_signal = abortController ?s, loop_keepAlive = keepAlive opts,
                    loop_at = LoopExited\<rparr>]\<rparr>"
  have eq: "snd (startup nm c opts now s) = startupLoop (length (loops ?s)) now ?s1"
    using Inr by (simp add: startup_def Let_def)
  have q: "quiet s ?s1" by (simp add: quiet_defs nth_append)
  have "shape ?s1 (startupLoop (length (loops ?s)) now ?s1)"
    by (rule shape_startupLoop) (simp_all add: emit_def)
  with q show ?thesis unfolding eq by (rule shape_trans_quiet)
qed

lemma shape_resumeStartup:
  assumes "refs_ok s"
  shows "shape s (resumeStartup a now s)"
proof (cases "a < length (loops s)")
  case False
  then show ?thesis by (simp add: resumeStartup_def shape_quiet quiet_refl)
next
  case True
  with assms have j: "loop_job (loops s ! a) < length (jobObjs s)" by (simp add: refs_ok_def)
  show ?thesis
  proof (cases "loop_at (loops s ! a)")
    case (AwaitExecuteJob i)
    with True show ?thesis
      by (simp add: resumeStartup_def Let_def shape_quiet quiet_defs)
  next
    case AwaitSleep
    with True j show ?thesis by (simp add: resumeStartup_def shape_startupLoop)
  next
    case LoopExited
    with True show ?thesis by (simp add: resumeStartup_def shape_quiet quiet_refl)
  qed
qed

lemma shape_schedule: "shape s (snd (schedule P nm sc c opts s))"
  by (auto simp: schedule_def Let_def intro!: shape_quiet simp: quiet_defs nth_append
      split: sum.splits option.splits)

lemma shape_catchUp:
  assumes "a < length (catchups s)" "catchup_job (catchups s ! a) < length (jobObjs s)"
  shows "shape s (catchUp a r now s)"
proof (cases "int r < makeUpRuns (catchups s ! a)")
  case True
  with assms show ?thesis
    by (simp add: catchUp_def Let_def) (rule shape_exec; simp add: quiet_defs)
next
  case False
  then show ?thesis by (simp add: catchUp_def Let_def shape_quiet quiet_defs)
qed

lemma quiet_countRuns: "quiet s (countRuns a now s)"
  by (simp add: countRuns_def Let_def quiet_defs)

lemma countRuns_job [simp]:
  "length (catchups (countRuns a now s)) = length (catchups s)"
  "catchup_job (catchups (countRuns a now s) ! k) = catchup_job (catchups s ! k)"
  "jobObjs (countRuns a now s) = jobObjs s"
  by (simp_all add: countRuns_def Let_def emit_def)

lemma shape_resumeSchedule:
  assumes "refs_ok s"
  shows "shape s (resumeSchedule a now s)"
proof (cases "a < length (catchups s)")
  case False
  then show ?thesis by (simp add: resumeSchedule_def shape_quiet quiet_refl)
next
  case True
  with assms have j: "catchup_job (catchups s ! a) < length (jobObjs s)"
    by (simp add: refs_ok_def)
  show ?thesis
  proof (cases "catchup_at (catchups s ! a)")
    case AwaitGetLastRuns
    have "shape (countRuns a now s) (catchUp a 0 now (countRuns a now s))"
      using True j by (intro shape_catchUp) simp_all
    with quiet_countRuns have "shape s (catchUp a 0 now (countRuns a now s))"
      by (rule shape_trans_quiet)
    with True AwaitGetLastRuns show ?thesis by (simp add: resumeSchedule_def)
  next
    case (AwaitCatchUp run i)
    with True j show ?thesis
      by (simp add: resumeSchedule_def shape_catchUp shape_quiet quiet_refl)
  next
    case ScheduleReturned
    with True show ?thesis by (simp add: resumeSchedule_def shape_quiet quiet_refl)
  qed
qed

lemma callback_skip:
  "map_of (scheduler s) tid = Some t \<Longrightarrow> process (jobObjs s ! task_job t) = Some pid
     \<Longrightarrow> \<not> task_allowConcurrentRuns t
     \<Longrightarrow> callback tid now s = emit (Callback tid) [Stderr (skipping (task_name t))] s"
  by (simp add: callback_def)

lemma callback_run:
  "map_of (scheduler s) tid = Some t
     \<Longrightarrow> process (jobObjs s ! task_job t) = None \<or> task_allowConcurrentRuns t
     \<Longrightarrow> callback tid now s =
         executeJob (task_job t) now (emit (Callback tid) [ExecuteJob (length (executions s))] s)"
  by (auto simp add: callback_def)

lemma shape_callback:
  assumes "refs_ok s"
  shows "shape s (callback tid now s)"
proof (cases "map_of (scheduler s) tid")
  case None
  then show ?thesis by (simp add: callback_def shape_quiet quiet_refl)
next
  case (Some t)
  then have "(tid, t) \<in> set (scheduler s)" by (rule map_of_SomeD)
  with assms have j: "task_job t < length (jobObjs s)" by (auto simp: refs_ok_def)
  show ?thesis
  proof (cases "process (jobObjs s ! task_job t) = None \<or> task_allowConcurrentRuns t")
    case True
    have "shape s (executeJob (task_job t) now
            (emit (Callback tid) [ExecuteJob (length (executions s))] s))"
      using j by (intro shape_exec) (simp_all add: quiet_defs)
    with Some True show ?thesis by (simp only: callback_run)
  next
    case False
    then obtain pid where "process (jobObjs s ! task_job t) = Some pid"
      and "\<not> task_allowConcurrentRuns t" by auto
    with Some show ?thesis by (simp add: callback_skip shape_quiet quiet_defs)
  qed
qed

lemma shape_childExit: "shape s (childExit p c s)"
  by (auto simp: childExit_def intro!: shape_quiet simp: quiet_defs nth_list_update)

lemma shape_http: "shape s (snd (httpHandler req now fs s))"
  using http_trace [of req now fs s]
  by (auto intro!: shape_quiet simp: quiet_def extends_def events_of_def)

lemma filter_kills:
  "who \<noteq> w \<Longrightarrow> filter (\<lambda>(w', e). w' = who) (map (\<lambda>(i, pid). (w, Kill pid)) ls) = []"
  by (induction ls) auto

lemma shape_reset: "shape s (reset s)"
  by (auto simp: reset_def Let_def intro!: shape_quiet simp: quiet_def extends_def events_of_def
        abort_trace emit_def filter_kills)

lemma execs_ok_step: "execs_ok s \<Longrightarrow> refs_ok s \<Longrightarrow> execs_ok (step P a s)"
  by (cases a)
     (simp_all add: execs_ok_resumeJob execs_ok_shape [OF _ shape_startup]
        execs_ok_shape [OF _ shape_schedule] execs_ok_shape [OF _ shape_reset]
        execs_ok_shape [OF _ shape_callback] execs_ok_shape [OF _ shape_resumeStartup]
        execs_ok_shape [OF _ shape_resumeSchedule] execs_ok_shape [OF _ shape_childExit]
        execs_ok_shape [OF _ shape_http])

lemma execs_ok_reachable: "reachable P s \<Longrightarrow> execs_ok s"
proof (induction rule: reachable.induct)
  case (reachable_new p dir)
  show ?case by (simp add: execs_ok_def fresh_def new_ChronService_def events_of_def)
next
  case (reachable_step s a)
  then show ?case by (simp add: execs_ok_step refs_ok_reachable)
qed

lemma jobs_emit [simp]: "jobs (emit w es s) = jobs s" by (simp add: emit_def)

lemma jobs_goto [simp]: "jobs (goto i f s) = jobs s" by (simp add: goto_def)

lemma jobs_kill [simp]: "jobs (kill w p s) = jobs s" by (simp add: kill_def)

lemma jobs_resumeJob [simp]: "jobs (resumeJob i u now s) = jobs s"
  by (simp add: resumeJob_def Let_def split: pc.splits option.splits)

lemma jobs_startupLoop [simp]: "jobs (startupLoop a now s) = jobs s" by (simp add: startupLoop_def Let_def)

lemma jobs_resumeStartup [simp]: "jobs (resumeStartup a now s) = jobs s"
  by (simp add: resumeStartup_def Let_def split: LoopState.splits)

lemma jobs_catchUp [simp]: "jobs (catchUp a r now s) = jobs s" by (simp add: catchUp_def Let_def)

lemma jobs_countRuns [simp]: "jobs (countRuns a now s) = jobs s"
  by (simp add: countRuns_def Let_def emit_def)

lemma jobs_resumeSchedule [simp]: "jobs (resumeSchedule a now s) = jobs s"
  by (simp add: resumeSchedule_def split: CatchUpState.splits)

lemma jobs_callback [simp]: "jobs (callback t now s) = jobs s"
  by (simp add: callback_def split: option.splits)

lemma jobs_childExit [simp]: "jobs (childExit p c s) = jobs s" by (simp add: childExit_def)

lemma jobs_reset [simp]: "jobs (reset s) = []" by (simp add: reset_def Let_def)

lemma jobs_startup: "jobs (snd (startup nm c opts now s)) = (if validateName s nm = Inr () then jobs s @ [(nm, length (jobObjs s))] else jobs s)"
  by (auto simp add: startup_def Let_def validateName_def emit_def split: sum.splits)

lemma jobs_schedule: "set (jobs (snd (schedule P nm sc c opts s))) \<subseteq> (if validateName s nm = Inr () then set (jobs s) \<union>  {(nm, length (jobObjs s))} else set (jobs s))"
  by (auto simp add: schedule_def Let_def validateName_def emit_def split: sum.splits option.splits)

lemma validateName_ok: "validateName s nm = Inr () \<Longrightarrow> valid_name nm"
  by (auto simp: validateName_def valid_name_def split: if_splits)

lemma names_valid: "reachable P s \<Longrightarrow> (nm, j) \<in> set (jobs s) \<Longrightarrow> valid_name nm"
proof (induction arbitrary: nm j rule: reachable.induct)
  case (reachable_new p dir)
  then show ?case by (simp add: new_ChronService_def)
next
  case (reachable_step s a)
  show ?case
  proof (cases a)
    case (DoStartup x11 x12 x13 x14)
    with reachable_step show ?thesis by (auto simp: jobs_startup validateName_ok split: if_splits)
  next
    case (DoSchedule x21 x22 x23 x24)
    with reachable_step.prems jobs_schedule [of P x21 x22 x23 x24 s] reachable_step.IH show ?thesis
      by (auto simp: validateName_ok split: if_splits)
  qed (use reachable_step in auto)
qed

section \<open>The claims\<close>

subsection \<open>Name validation\<close>

lemma registry_names_valid:
  "reachable P s \<Longrightarrow> nm \<in> fst ` set (jobs s) \<Longrightarrow> nm \<noteq> [] \<and> regex_test kebab_case nm"
  using names_valid [of P s nm] by (auto simp: valid_name_def)

lemma validateName_cases:
  "validateName s nm =
     (if nm = [] \<or> \<not> regex_test kebab_case nm then Inl InvalidName
      else if nm \<in> fst ` set (jobs s) then Inl DuplicateName
      else Inr ())"
proof -
  have "map_of (jobs s) nm \<noteq> None \<longleftrightarrow> nm \<in> fst ` set (jobs s)"
    by (simp add: map_of_eq_None_iff)
  then show ?thesis unfolding validateName_def by simp
qed

lemmas kebab_eval = regex_test_def kebab_case_def OneOrMore_def alnum_def hyphen_def in_range_def

text \<open>
  C2. In every state the supervisor can reach, \<open>#validateName\<close> throws "Invalid job name"
  exactly when the name is empty or is not in the language of
  \<open>^[a-zA-Z0-9]+(-[a-zA-Z0-9]+)*$\<close>, and throws "A job with this name already exists"
  exactly when the registry holds the name. It rejects \<open>""\<close>, \<open>"Ab_c"\<close>, \<open>"a--b"\<close>,
  \<open>"-a"\<close>, \<open>"a-"\<close>, and it accepts \<open>"a"\<close>, \<open>"job-1"\<close>, \<open>"Do-It-Now"\<close> exactly when they are not
  registered yet.
\<close>

theorem validateName_spec:
  assumes "reachable P s"
  shows "(validateName s nm = Inl InvalidName \<longleftrightarrow> nm = [] \<or> nm \<notin> lang kebab_case)
       \<and> (validateName s nm = Inl DuplicateName \<longleftrightarrow> nm \<in> fst ` set (jobs s))
       \<and> validateName s [] = Inl InvalidName
       \<and> validateName s ''Ab_c'' = Inl InvalidName
       \<and> validateName s ''a--b'' = Inl InvalidName
       \<and> validateName s ''-a'' = Inl InvalidName
       \<and> validateName s ''a-'' = Inl InvalidName
       \<and> (validateName s ''a'' = Inr ()) = (''a'' \<notin> fst ` set (jobs s))
       \<and> (validateName s ''job-1'' = Inr ()) = (''job-1'' \<notin> fst ` set (jobs s))
       \<and> (validateName s ''Do-It-Now'' = Inr ()) = (''Do-It-Now'' \<notin> fst ` set (jobs s))"
proof -
  have invalid: "validateName s nm = Inl InvalidName \<longleftrightarrow> nm = [] \<or> nm \<notin> lang kebab_case"
    by (simp add: validateName_cases regex_test_lang)
  have duplicate: "validateName s nm = Inl DuplicateName \<longleftrightarrow> nm \<in> fst ` set (jobs s)"
  proof
    assume "validateName s nm = Inl DuplicateName"
    then show "nm \<in> fst ` set (jobs s)"
      by (simp add: validateName_cases split: if_splits)
  next
    assume r: "nm \<in> fst ` set (jobs s)"
    with assms have "nm \<noteq> [] \<and> regex_test kebab_case nm" by (rule registry_names_valid)
    with r show "validateName s nm = Inl DuplicateName" by (simp add: validateName_cases)
  qed
  have rejected: "validateName s [] = Inl InvalidName" "validateName s ''Ab_c'' = Inl InvalidName"
    "validateName s ''a--b'' = Inl InvalidName" "validateName s ''-a'' = Inl InvalidName"
    "validateName s ''a-'' = Inl InvalidName"
    by (simp_all add: validateName_cases kebab_eval)
  have accepted: "(validateName s ''a'' = Inr ()) = (''a'' \<notin> fst ` set (jobs s))"
    "(validateName s ''job-1'' = Inr ()) = (''job-1'' \<notin> fst ` set (jobs s))"
    "(validateName s ''Do-It-Now'' = Inr ()) = (''Do-It-Now'' \<notin> fst ` set (jobs s))"
    by (simp_all add: validateName_cases kebab_eval)
  from invalid duplicate rejected accepted show ?thesis by simp
qed

theorem validateName_spec_witness:
  "reachable example_parser
     (step example_parser (DoStartup ''job-1'' ''true'' \<lparr>keepAlive = False\<rparr> 0)
        (new_ChronService 8000 ''/tmp''))
   \<and> validateName
        (step example_parser (DoStartup ''job-1'' ''true'' \<lparr>keepAlive = False\<rparr> 0)
           (new_ChronService 8000 ''/tmp'')) ''job-1'' = Inl DuplicateName
   \<and> validateName
        (step example_parser (DoStartup ''job-1'' ''true'' \<lparr>keepAlive = False\<rparr> 0)
           (new_ChronService 8000 ''/tmp'')) ''a-'' = Inl InvalidName
   \<and> validateName
        (step example_parser (DoStartup ''job-1'' ''true'' \<lparr>keepAlive = False\<rparr> 0)
           (new_ChronService 8000 ''/tmp'')) ''a'' = Inr ()"
proof -
  let ?s = "step example_parser (DoStartup ''job-1'' ''true'' \<lparr>keepAlive = False\<rparr> 0)
              (new_ChronService 8000 ''/tmp'')"
  have r: "reachable example_parser ?s" by (intro reachable.intros)
  have j: "jobs ?s = [(''job-1'', 0)]"
    by (simp add: jobs_startup new_ChronService_def emit_def validateName_def kebab_eval)
  from validateName_spec [OF r, of "''job-1''"] j r show ?thesis by simp
qed

subsection \<open>Clearing the mailbox\<close>

text \<open>
  C9. \<open>clearMessages(source)\<close> removes exactly the messages of that source and returns
  them; the messages of every other source stay as they are, in their order.
  \<open>clearAllMessages()\<close> removes (and returns) all messages.
\<close>

theorem clear_mailbox:
  "fst (clearMessages src db) = filter (\<lambda>m. source m = src) db
   \<and> snd (clearMessages src db) = filter (\<lambda>m. source m \<noteq> src) db
   \<and> (m \<in> set (snd (clearMessages src db)) \<longleftrightarrow> m \<in> set db \<and> source m \<noteq> src)
   \<and> fst (clearAllMessages db) = db
   \<and> snd (clearAllMessages db) = []"
  by (simp add: clearMessages_def clearAllMessages_def deleteMany_def)

theorem clear_mailbox_witness:
  "clearMessages ''a''
     [\<lparr>source = ''a'', msg_timestamp = 1, message = ''x''\<rparr>,
      \<lparr>source = ''@errors'', msg_timestamp = 2, message = ''y''\<rparr>,
      \<lparr>source = ''a'', msg_timestamp = 3, message = ''z''\<rparr>]
   = ([\<lparr>source = ''a'', msg_timestamp = 1, message = ''x''\<rparr>,
       \<lparr>source = ''a'', msg_timestamp = 3, message = ''z''\<rparr>],
      [\<lparr>source = ''@errors'', msg_timestamp = 2, message = ''y''\<rparr>])"
  using clear_mailbox [of "''a''"
     "[\<lparr>source = ''a'', msg_timestamp = 1, message = ''x''\<rparr>,
       \<lparr>source = ''@errors'', msg_timestamp = 2, message = ''y''\<rparr>,
       \<lparr>source = ''a'', msg_timestamp = 3, message = ''z''\<rparr>]"]
  by (simp add: prod_eq_iff)

subsection \<open>HTTP error mapping\<close>

lemma http_root:
  "http_method req = ''GET'' \<Longrightarrow> pathname req = ''/''
     \<Longrightarrow> res_status (fst (httpHandler req now fs s)) = 200"
  by (simp add: httpHandler_def json_response_def)

lemma http_no_pattern:
  "\<not> (http_method req = ''GET'' \<and> pathname req = ''/'') \<Longrightarrow> jobPattern (pathname req) = None
     \<Longrightarrow> mailboxPattern (pathname req) = None
     \<Longrightarrow> fst (httpHandler req now fs s) = text_response 400 ''Bad Request''"
  by (auto simp add: httpHandler_def)

lemma http_job_route:
  "\<not> (http_method req = ''GET'' \<and> pathname req = ''/'') \<Longrightarrow> jobPattern (pathname req) = Some (job, c)
     \<Longrightarrow> httpHandler req now fs s = jobHandler req job c now fs s"
  by (auto simp add: httpHandler_def)

lemma http_mailbox_route:
  "\<not> (http_method req = ''GET'' \<and> pathname req = ''/'') \<Longrightarrow> jobPattern (pathname req) = None
     \<Longrightarrow> mailboxPattern (pathname req) = Some c
     \<Longrightarrow> httpHandler req now fs s = mailboxHandler req c s"
  by (auto simp add: httpHandler_def)

lemma pattern_not_root: "jobPattern ''/'' = None" "mailboxPattern ''/'' = None"
  by (simp_all add: jobPattern_def mailboxPattern_def)

lemma job_unknown:
  "map_of (jobs s) job = None \<Longrightarrow> fst (jobHandler req job c now fs s) = text_response 404 ''Not Found''"
  by (simp add: jobHandler_def)

lemma job_status_405:
  "map_of (jobs s) job = Some j \<Longrightarrow> http_method req \<noteq> ''GET''
     \<Longrightarrow> fst (jobHandler req job ''status'' now fs s) = text_response 405 ''Invalid Method''"
  by (simp add: jobHandler_def)

lemma job_logs_405:
  "map_of (jobs s) job = Some j \<Longrightarrow> http_method req \<noteq> ''GET'' \<Longrightarrow> http_method req \<noteq> ''DELETE''
     \<Longrightarrow> fst (jobHandler req job ''logs'' now fs s) = text_response 405 ''Invalid Method''"
  by (simp add: jobHandler_def)

lemma job_mailbox_405:
  "map_of (jobs s) job = Some j \<Longrightarrow> http_method req \<noteq> ''GET'' \<Longrightarrow> http_method req \<noteq> ''POST''
     \<Longrightarrow> http_method req \<noteq> ''DELETE''
     \<Longrightarrow> fst (jobHandler req job ''mailbox'' now fs s) = text_response 405 ''Invalid Method''"
  by (simp add: jobHandler_def)

lemma job_terminate_405:
  "map_of (jobs s) job = Some j \<Longrightarrow> http_method req \<noteq> ''POST''
     \<Longrightarrow> fst (jobHandler req job ''terminate'' now fs s) = text_response 405 ''Invalid Method''"
  by (simp add: jobHandler_def)

lemma job_command_404:
  "map_of (jobs s) job = Some j \<Longrightarrow> c \<noteq> ''status'' \<Longrightarrow> c \<noteq> ''logs'' \<Longrightarrow> c \<noteq> ''mailbox''
     \<Longrightarrow> c \<noteq> ''terminate''
     \<Longrightarrow> fst (jobHandler req job c now fs s) = text_response 404 ''Not Found''"
  by (simp add: jobHandler_def)

lemma job_logs_fs:
  "map_of (jobs s) job = Some j \<Longrightarrow> http_method req = ''GET'' \<or> http_method req = ''DELETE''
     \<Longrightarrow> fst (jobHandler req job ''logs'' now (Some err) fs_s) = handleFsError err"
  if "fs_s = s"
  using that by (auto simp add: jobHandler_def)

lemma mailbox_messages_405:
  "http_method req \<noteq> ''GET'' \<Longrightarrow> http_method req \<noteq> ''DELETE''
     \<Longrightarrow> fst (mailboxHandler req ''messages'' s) = text_response 405 ''Invalid Method''"
  by (simp add: mailboxHandler_def)

lemma mailbox_command_405:
  "c \<noteq> ''messages'' \<Longrightarrow> c \<noteq> ''count''
     \<Longrightarrow> fst (mailboxHandler req c s) = text_response 405 ''Invalid Method''"
  by (simp add: mailboxHandler_def)

text \<open>
  C7, as the specification states it, fails: the route table lists \<open>GET /\<close>, so a \<open>POST\<close>
  to \<open>/\<close> is a request to a matched route with a method the route does not support, and
  the handler answers 400, not 405.
\<close>

theorem http_error_mapping_counterexample:
  "spec_path_matched ''/'' \<and> \<not> spec_method_supported ''POST'' ''/''
   \<and> res_status (fst (httpHandler \<lparr>http_method = ''POST'', pathname = ''/'', req_text = []\<rparr>
          0 None (new_ChronService 8000 ''/tmp''))) = 400"
  by (simp add: spec_path_matched_def spec_method_supported_def spec_routes_def
      route_matches_def http_no_pattern pattern_not_root text_response_def)

text \<open>
  C7, amended. A request other than \<open>GET /\<close> whose path matches neither
  \<open>/job/:job/:command\<close> nor \<open>/mailbox/:command\<close> receives 400; that includes every other
  method on \<open>/\<close>. On \<open>/job/:job/:command\<close> an unknown job receives 404 whatever the method
  and the command; for a known job, a method the command (\<open>status\<close>, \<open>logs\<close>, \<open>mailbox\<close>,
  \<open>terminate\<close>) does not handle receives 405 and any other command 404. On
  \<open>/mailbox/messages\<close> a method other than \<open>GET\<close> and \<open>DELETE\<close> receives 405, as does
  \<open>/mailbox/:command\<close> for a command other than \<open>messages\<close> and \<open>count\<close>. On the log routes
  of a known job a not-found filesystem error yields 404, any other \<open>Error\<close> yields 500 with
  its text, and a thrown value that is no \<open>Error\<close> yields 500 "Unknown error".
\<close>

theorem http_error_mapping:
  "(\<not> (http_method req = ''GET'' \<and> pathname req = ''/'') \<and> jobPattern (pathname req) = None
      \<and> mailboxPattern (pathname req) = None
      \<longrightarrow> fst (httpHandler req now fs s) = text_response 400 ''Bad Request'')
   \<and> (http_method req \<noteq> ''GET'' \<and> pathname req = ''/''
      \<longrightarrow> fst (httpHandler req now fs s) = text_response 400 ''Bad Request'')
   \<and> (jobPattern (pathname req) = Some (job, c) \<and> map_of (jobs s) job = None
      \<longrightarrow> fst (httpHandler req now fs s) = text_response 404 ''Not Found'')
   \<and> (jobPattern (pathname req) = Some (job, c) \<and> map_of (jobs s) job = Some j
      \<and> (c = ''status'' \<and> http_method req \<noteq> ''GET''
         \<or> c = ''logs'' \<and> http_method req \<notin> {''GET'', ''DELETE''}
         \<or> c = ''mailbox'' \<and> http_method req \<notin> {''GET'', ''POST'', ''DELETE''}
         \<or> c = ''terminate'' \<and> http_method req \<noteq> ''POST'')
      \<longrightarrow> fst (httpHandler req now fs s) = text_response 405 ''Invalid Method'')
   \<and> (jobPattern (pathname req) = Some (job, c) \<and> map_of (jobs s) job = Some j
      \<and> c \<notin> {''status'', ''logs'', ''mailbox'', ''terminate''}
      \<longrightarrow> fst (httpHandler req now fs s) = text_response 404 ''Not Found'')
   \<and> (jobPattern (pathname req) = None \<and> mailboxPattern (pathname req) = Some c
      \<and> (c = ''messages'' \<and> http_method req \<notin> {''GET'', ''DELETE''}
         \<or> c \<notin> {''messages'', ''count''})
      \<longrightarrow> fst (httpHandler req now fs s) = text_response 405 ''Invalid Method'')
   \<and> (jobPattern (pathname req) = Some (job, ''logs'') \<and> map_of (jobs s) job = Some j
      \<and> http_method req \<in> {''GET'', ''DELETE''}
      \<longrightarrow> fst (httpHandler req now (Some NotFound) s) = text_response 404 ''Not Found''
        \<and> fst (httpHandler req now (Some (OtherError str)) s) = text_response 500 str
        \<and> fst (httpHandler req now (Some NotAnError) s) = text_response 500 ''Unknown error'')"
proof -
  have not_root: "\<not> (http_method req = ''GET'' \<and> pathname req = ''/'')"
    if "jobPattern (pathname req) \<noteq> None \<or> mailboxPattern (pathname req) \<noteq> None"
    using that pattern_not_root by auto
  have a: "\<not> (http_method req = ''GET'' \<and> pathname req = ''/'') \<and> jobPattern (pathname req) = None
      \<and> mailboxPattern (pathname req) = None
      \<longrightarrow> fst (httpHandler req now fs s) = text_response 400 ''Bad Request''"
    by (simp add: http_no_pattern)
  have b: "http_method req \<noteq> ''GET'' \<and> pathname req = ''/''
      \<longrightarrow> fst (httpHandler req now fs s) = text_response 400 ''Bad Request''"
    by (simp add: http_no_pattern pattern_not_root)
  have c: "jobPattern (pathname req) = Some (job, c) \<and> map_of (jobs s) job = None
      \<longrightarrow> fst (httpHandler req now fs s) = text_response 404 ''Not Found''"
    using not_root by (simp add: http_job_route job_unknown)
  have d: "jobPattern (pathname req) = Some (job, c) \<and> map_of (jobs s) job = Some j
      \<and> (c = ''status'' \<and> http_method req \<noteq> ''GET''
         \<or> c = ''logs'' \<and> http_method req \<notin> {''GET'', ''DELETE''}
         \<or> c = ''mailbox'' \<and> http_method req \<notin> {''GET'', ''POST'', ''DELETE''}
         \<or> c = ''terminate'' \<and> http_method req \<noteq> ''POST'')
      \<longrightarrow> fst (httpHandler req now fs s) = text_response 405 ''Invalid Method''"
    using not_root
    by (auto simp add: http_job_route job_status_405 job_logs_405 job_mailbox_405
        job_terminate_405)
  have e: "jobPattern (pathname req) = Some (job, c) \<and> map_of (jobs s) job = Some j
      \<and> c \<notin> {''status'', ''logs'', ''mailbox'', ''terminate''}
      \<longrightarrow> fst (httpHandler req now fs s) = text_response 404 ''Not Found''"
    using not_root by (simp add: http_job_route job_command_404)
  have f: "jobPattern (pathname req) = None \<and> mailboxPattern (pathname req) = Some c
      \<and> (c = ''messages'' \<and> http_method req \<notin> {''GET'', ''DELETE''}
         \<or> c \<notin> {''messages'', ''count''})
      \<longrightarrow> fst (httpHandler req now fs s) = text_response 405 ''Invalid Method''"
    using not_root
    by (auto simp add: http_mailbox_route mailbox_messages_405 mailbox_command_405)
  have g: "jobPattern (pathname req) = Some (job, ''logs'') \<and> map_of (jobs s) job = Some j
      \<and> http_method req \<in> {''GET'', ''DELETE''}
      \<longrightarrow> fst (httpHandler req now (Some NotFound) s) = text_response 404 ''Not Found''
        \<and> fst (httpHandler req now (Some (OtherError str)) s) = text_response 500 str
        \<and> fst (httpHandler req now (Some NotAnError) s) = text_response 500 ''Unknown error''"
    using not_root
    by (auto simp add: http_job_route job_logs_fs handleFsError_def text_response_def)
  from a b c d e f g show ?thesis by (intro conjI)
qed

theorem http_error_mapping_witness:
  "fst (httpHandler \<lparr>http_method = ''GET'', pathname = ''/nothing/here/at/all'', req_text = []\<rparr>
          0 None (new_ChronService 8000 ''/tmp'')) = text_response 400 ''Bad Request''
   \<and> fst (httpHandler \<lparr>http_method = ''POST'', pathname = ''/'', req_text = []\<rparr>
          0 None (new_ChronService 8000 ''/tmp'')) = text_response 400 ''Bad Request''
   \<and> fst (httpHandler \<lparr>http_method = ''GET'', pathname = ''/job/b/status'', req_text = []\<rparr>
          0 None (snd (startup ''a'' ''true'' \<lparr>keepAlive = False\<rparr> 0 (new_ChronService 8000 ''/tmp''))))
       = text_response 404 ''Not Found''
   \<and> fst (httpHandler \<lparr>http_method = ''PUT'', pathname = ''/job/a/status'', req_text = []\<rparr>
          0 None (snd (startup ''a'' ''true'' \<lparr>keepAlive = False\<rparr> 0 (new_ChronService 8000 ''/tmp''))))
       = text_response 405 ''Invalid Method''
   \<and> fst (httpHandler \<lparr>http_method = ''GET'', pathname = ''/job/a/restart'', req_text = []\<rparr>
          0 None (snd (startup ''a'' ''true'' \<lparr>keepAlive = False\<rparr> 0 (new_ChronService 8000 ''/tmp''))))
       = text_response 404 ''Not Found''
   \<and> fst (httpHandler \<lparr>http_method = ''POST'', pathname = ''/mailbox/messages'', req_text = []\<rparr>
          0 None (new_ChronService 8000 ''/tmp'')) = text_response 405 ''Invalid Method''
   \<and> fst (httpHandler \<lparr>http_method = ''GET'', pathname = ''/job/a/logs'', req_text = []\<rparr>
          0 (Some (OtherError ''PermissionDenied: no access''))
          (snd (startup ''a'' ''true'' \<lparr>keepAlive = False\<rparr> 0 (new_ChronService 8000 ''/tmp''))))
       = text_response 500 ''PermissionDenied: no access''
   \<and> fst (httpHandler \<lparr>http_method = ''DELETE'', pathname = ''/job/a/logs'', req_text = []\<rparr>
          0 (Some NotFound)
          (snd (startup ''a'' ''true'' \<lparr>keepAlive = False\<rparr> 0 (new_ChronService 8000 ''/tmp''))))
       = text_response 404 ''Not Found''"
proof -
  let ?new = "new_ChronService 8000 ''/tmp''"
  let ?s = "snd (startup ''a'' ''true'' \<lparr>keepAlive = False\<rparr> 0 ?new)"
  have j: "jobs ?s = [(''a'', 0)]"
    by (simp add: jobs_startup new_ChronService_def emit_def validateName_def kebab_eval)
  have p: "jobPattern ''/nothing/here/at/all'' = None" "mailboxPattern ''/nothing/here/at/all'' = None"
    "jobPattern ''/job/b/status'' = Some (''b'', ''status'')"
    "jobPattern ''/job/a/status'' = Some (''a'', ''status'')"
    "jobPattern ''/job/a/restart'' = Some (''a'', ''restart'')"
    "jobPattern ''/job/a/logs'' = Some (''a'', ''logs'')"
    "jobPattern ''/mailbox/messages'' = None"
    "mailboxPattern ''/mailbox/messages'' = Some ''messages''"
    by (simp_all add: jobPattern_def mailboxPattern_def)
  show ?thesis
    using
      http_error_mapping [where req = "\<lparr>http_method = ''GET'', pathname = ''/nothing/here/at/all'',
        req_text = []\<rparr>" and now = 0 and fs = None and s = ?new]
      http_error_mapping [where req = "\<lparr>http_method = ''POST'', pathname = ''/'', req_text = []\<rparr>"
        and now = 0 and fs = None and s = ?new]
      http_error_mapping [where req = "\<lparr>http_method = ''GET'', pathname = ''/job/b/status'',
        req_text = []\<rparr>" and now = 0 and fs = None and s = ?s and job = "''b''" and c = "''status''"]
      http_error_mapping [where req = "\<lparr>http_method = ''PUT'', pathname = ''/job/a/status'',
        req_text = []\<rparr>" and now = 0 and fs = None and s = ?s and job = "''a''" and c = "''status''"
        and j = 0]
      http_error_mapping [where req = "\<lparr>http_method = ''GET'', pathname = ''/job/a/restart'',
        req_text = []\<rparr>" and now = 0 and fs = None and s = ?s and job = "''a''" and c = "''restart''"
        and j = 0]
      http_error_mapping [where req = "\<lparr>http_method = ''POST'', pathname = ''/mailbox/messages'',
        req_text = []\<rparr>" and now = 0 and fs = None and s = ?new and c = "''messages''"]
      http_error_mapping [where req = "\<lparr>http_method = ''GET'', pathname = ''/job/a/logs'',
        req_text = []\<rparr>" and now = 0 and s = ?s and job = "''a''" and j = 0
        and str = "''PermissionDenied: no access''"]
      http_error_mapping [where req = "\<lparr>http_method = ''DELETE'', pathname = ''/job/a/logs'',
        req_text = []\<rparr>" and now = 0 and s = ?s and job = "''a''" and j = 0]
    by (simp add: j p)
qed

subsection \<open>Loading a chronfile\<close>

lemma api_calls_emit_other [simp]:
  "w \<noteq> Api \<Longrightarrow> api_calls (emit w es s) = api_calls s"
  by (simp add: api_calls_def events_of_emit)

lemma api_calls_emit_api [simp]:
  "api_calls (emit Api es s) = api_calls s @ filter is_call es"
  by (simp add: api_calls_def events_of_emit)

lemma api_calls_trace: "trace s' = trace s \<Longrightarrow> api_calls s' = api_calls s"
  by (simp add: api_calls_def events_of_def)

lemma not_call_kill: "filter is_call (map (snd \<circ> (\<lambda>(i, pid). (Api, Kill pid))) ls) = []"
  by (induction ls) (auto simp: is_call_def)

lemma api_calls_abort [simp]: "api_calls (abort c s) = api_calls s"
proof -
  have "filter (\<lambda>(w, e). w = Api) (map (\<lambda>(i, pid). (Api, Kill pid)) ls)
        = map (\<lambda>(i, pid). (Api, Kill pid)) ls" for ls :: "(nat \<times> nat) list"
    by (induction ls) auto
  then show ?thesis
    by (simp add: api_calls_def events_of_def abort_trace not_call_kill)
qed


lemma api_calls_executeJob [simp]: "api_calls (executeJob j now s) = api_calls s"
  by (simp add: executeJob_def Let_def api_calls_trace [of "s\<lparr>executions := x\<rparr>" s for x])

lemma api_calls_startupLoop [simp]: "api_calls (startupLoop a now s) = api_calls s"
  by (simp add: startupLoop_def Let_def api_calls_trace [of "s\<lparr>loops := x\<rparr>" s for x])

















end
